theory Spec2Isabelle
  imports Main "HOL-Library.Sublist"
begin

section \<open>JavaScript strings and the built-ins the component calls\<close>

text \<open>
  A JavaScript string is a sequence of UTF-16 code units. The model uses \<open>string\<close>
  (a list of \<open>char\<close>), each \<open>char\<close> standing for the code unit of the same number, so it
  covers texts over U+0000 .. U+00FF. \<open>length\<close>, \<open>take\<close>, \<open>drop\<close> and \<open>!\<close> count code
  units, as \<open>.length\<close>, \<open>slice\<close>, \<open>substring\<close> and indexing do.
\<close>

text \<open>The regular-expression class \<open>\s\<close> on this range: TAB, LF, VT, FF, CR, SPACE, NBSP.
  \<open>\S\<close> is its complement.\<close>

definition isSpace :: "char \<Rightarrow> bool" where
  "isSpace c \<longleftrightarrow>
     c \<in> set [CHR 0x09, CHR 0x0A, CHR 0x0B, CHR 0x0C, CHR 0x0D, CHR 0x20, CHR 0xA0]"

text \<open>The class \<open>\w\<close>: \<open>[A-Za-z0-9_]\<close>.\<close>

definition isWord :: "char \<Rightarrow> bool" where
  "isWord c \<longleftrightarrow>
     (let n = (of_char c :: nat)
      in (48 \<le> n \<and> n \<le> 57) \<or> (65 \<le> n \<and> n \<le> 90) \<or> n = 95 \<or> (97 \<le> n \<and> n \<le> 122))"

text \<open>
  \<open>String.prototype.search(/\S*$/)\<close>: the least index at which \<open>\S*$\<close> matches. Without the
  multiline flag \<open>$\<close> is the end of the input, so the pattern matches at an index exactly
  when everything from there on is non-whitespace; it always matches at the end.
\<close>

fun searchNonSpaceToEnd :: "string \<Rightarrow> nat" where
  "searchNonSpaceToEnd [] = 0"
| "searchNonSpaceToEnd (c # cs) =
     (if list_all (\<lambda>x. \<not> isSpace x) (c # cs) then 0 else Suc (searchNonSpaceToEnd cs))"

text \<open>\<open>String.prototype.indexOf(pat)\<close>: the least index at which \<open>pat\<close> occurs.\<close>

fun indexOf :: "string \<Rightarrow> string \<Rightarrow> nat option" where
  "indexOf [] pat = (if pat = [] then Some 0 else None)"
| "indexOf (c # cs) pat =
     (if prefix pat (c # cs) then Some 0 else map_option Suc (indexOf cs pat))"

text \<open>
  The abstract operation GetSubstitution of ECMAScript, for a string pattern (no capture
  groups): in the replacement text \<open>$$\<close> stands for \<open>$\<close>, \<open>$&\<close> for the matched substring,
  \<open>$`\<close> (U+0060) for the text before the match and \<open>$'\<close> (U+0027) for the text after it;
  \<open>$\<close> followed by anything else, or last, is itself.
\<close>

fun getSubstitution :: "string \<Rightarrow> string \<Rightarrow> string \<Rightarrow> string \<Rightarrow> string" where
  "getSubstitution matched pre post [] = []"
| "getSubstitution matched pre post [c] = [c]"
| "getSubstitution matched pre post (c # d # r) =
     (if c = CHR ''$'' then
        (if d = CHR ''$'' then CHR ''$'' # getSubstitution matched pre post r
         else if d = CHR ''&'' then matched @ getSubstitution matched pre post r
         else if d = CHR 0x60 then pre @ getSubstitution matched pre post r
         else if d = CHR 0x27 then post @ getSubstitution matched pre post r
         else c # getSubstitution matched pre post (d # r))
      else c # getSubstitution matched pre post (d # r))"

text \<open>
  A replacement text holds a pattern of GetSubstitution: somewhere in it a \<open>$\<close> stands
  right before \<open>$\<close>, \<open>&\<close>, U+0060 or U+0027.
\<close>

fun hasDollarPattern :: "string \<Rightarrow> bool" where
  "hasDollarPattern [] = False"
| "hasDollarPattern [c] = False"
| "hasDollarPattern (c # d # r) =
     ((c = CHR ''$'' \<and> d \<in> set [CHR ''$'', CHR ''&'', CHR 0x60, CHR 0x27])
      \<or> hasDollarPattern (d # r))"

text \<open>
  \<open>str.replace(searchValue, replaceValue)\<close> with both arguments strings: the first
  occurrence of \<open>searchValue\<close> is replaced by the substitution of \<open>replaceValue\<close>; a string
  without an occurrence is returned as it is.
\<close>

definition replaceString :: "string \<Rightarrow> string \<Rightarrow> string \<Rightarrow> string" where
  "replaceString str searchValue replaceValue =
     (case indexOf str searchValue of
        None \<Rightarrow> str
      | Some pos \<Rightarrow>
          take pos str
          @ getSubstitution searchValue (take pos str)
              (drop (pos + length searchValue) str) replaceValue
          @ drop (pos + length searchValue) str)"

section \<open>The text splicer: the computations of \<open>_onSelect\<close>\<close>

text \<open>
  The loop \<open>while (textareaValue[selectionEnd + offsetToEndOfToken] && /\S/.test(...))
  offsetToEndOfToken += 1\<close>. Indexing past the end gives \<open>undefined\<close>, which ends the loop; a
  code unit inside the text is a one-character string, which is truthy.
\<close>

function offsetLoop :: "string \<Rightarrow> nat \<Rightarrow> nat \<Rightarrow> nat" where
  "offsetLoop textareaValue selEnd off =
     (if selEnd + off < length textareaValue \<and> \<not> isSpace (textareaValue ! (selEnd + off))
      then offsetLoop textareaValue selEnd (Suc off)
      else off)"
  by pat_completeness auto
termination
  by (relation "measure (\<lambda>(t, s, off). length t - (s + off))") auto

declare offsetLoop.simps [simp del]

definition offsetToEndOfToken :: "string \<Rightarrow> nat \<Rightarrow> nat" where
  "offsetToEndOfToken textareaValue selEnd = offsetLoop textareaValue selEnd 0"

text \<open>\<open>textareaValue.slice(0, selectionEnd + offsetToEndOfToken)\<close>\<close>

definition textToModify :: "string \<Rightarrow> nat \<Rightarrow> string" where
  "textToModify textareaValue selEnd =
     take (selEnd + offsetToEndOfToken textareaValue selEnd) textareaValue"

definition startOfTokenPosition :: "string \<Rightarrow> nat \<Rightarrow> nat" where
  "startOfTokenPosition textareaValue selEnd =
     searchNonSpaceToEnd (textToModify textareaValue selEnd)"

definition newCaretPosition :: "string \<Rightarrow> nat \<Rightarrow> string \<Rightarrow> nat" where
  "newCaretPosition textareaValue selEnd newToken =
     startOfTokenPosition textareaValue selEnd + length newToken"

text \<open>\<open>textToModify.substring(0, startOfTokenPosition) + newToken\<close>\<close>

definition modifiedText :: "string \<Rightarrow> nat \<Rightarrow> string \<Rightarrow> string" where
  "modifiedText textareaValue selEnd newToken =
     take (startOfTokenPosition textareaValue selEnd) (textToModify textareaValue selEnd)
     @ newToken"

text \<open>\<open>textareaValue.replace(textToModify, modifiedText)\<close>, the new \<open>value\<close> of the state.\<close>

definition newValue :: "string \<Rightarrow> nat \<Rightarrow> string \<Rightarrow> string" where
  "newValue textareaValue selEnd newToken =
     replaceString textareaValue (textToModify textareaValue selEnd)
       (modifiedText textareaValue selEnd newToken)"

section \<open>The tokenizer: lines 272 to 294 of \<open>_changeHandler\<close>\<close>

text \<open>
  \<open>this.tokenRegExp = new RegExp(`[${Object.keys(trigger).join('')}]\\w*$`)\<close>: a character of
  the class made of the joined trigger keys, then word characters up to the end of the
  input. \<open>exec\<close> returns the match at the least index where the pattern matches. The class is
  given by its characters \<open>cls\<close>; characters with a meaning of their own inside a class
  (a leading \<open>^\<close>, \<open>]\<close>, \<open>\\<close>, or \<open>-\<close> between two others) are outside the model.
\<close>

fun execTokenRegExp :: "string \<Rightarrow> string \<Rightarrow> string option" where
  "execTokenRegExp cls [] = None"
| "execTokenRegExp cls (c # cs) =
     (if c \<in> set cls \<and> list_all isWord cs then Some (c # cs) else execTokenRegExp cls cs)"

text \<open>\<open>const tokenMatch = this.tokenRegExp.exec(value.slice(0, selectionEnd));
  const lastToken = tokenMatch && tokenMatch[0]\<close>\<close>

definition lastToken :: "string \<Rightarrow> string \<Rightarrow> nat \<Rightarrow> string option" where
  "lastToken tokenRegExp val selEnd = execTokenRegExp tokenRegExp (take selEnd val)"

text \<open>
  The three ways the handler goes on from there: it closes the autocomplete and returns
  (\<open>!lastToken || lastToken.length <= minChar\<close>), it returns because no trigger key equals
  the first character (\<open>!currentTrigger\<close>), or it proceeds with \<open>currentTrigger\<close> (the key
  found by \<open>triggerChars.find(a => a === lastToken[0])\<close>) and \<open>actualToken\<close>
  (\<open>lastToken.slice(1)\<close>).
\<close>

datatype tokenOutcome = NoToken | TriggerNotConfigured | Token string string

definition tokenizer :: "string \<Rightarrow> string list \<Rightarrow> int \<Rightarrow> string \<Rightarrow> nat \<Rightarrow> tokenOutcome" where
  "tokenizer tokenRegExp triggerChars minCh val selEnd =
     (case lastToken tokenRegExp val selEnd of
        None \<Rightarrow> NoToken
      | Some tok \<Rightarrow>
          if tok = [] \<or> int (length tok) \<le> minCh then NoToken
          else (case find (\<lambda>a. a = take 1 tok) triggerChars of
                  None \<Rightarrow> TriggerNotConfigured
                | Some t \<Rightarrow> if t = [] then TriggerNotConfigured else Token t (drop 1 tok)))"

section \<open>Props, state and the world around the component\<close>

text \<open>A candidate is a string or a structured record, given by its properties.\<close>

datatype item = ItemString string | ItemObject "(string \<times> string) list"

text \<open>The values a data provider can resolve to.\<close>

datatype jsval = JUndefined | JNull | JNumber int | JString string | JArray "item list" | JObject

text \<open>What a promise settles to, and what a data provider returns: a value or a promise.\<close>

datatype settled = Fulfilled jsval | Rejected string

datatype provided = Direct jsval | Promise settled

text \<open>A property that should hold a function: missing (falsy), something that is not a
  function, or a function.\<close>

datatype 'f fnProp = Absent | NotCallable | Callable 'f

datatype error = Error string | TypeError string

fun message :: "error \<Rightarrow> string" where
  "message (Error m) = m"
| "message (TypeError m) = m"

text \<open>A render function is given by its name.\<close>

record settingType =
  dataProvider :: "(string \<Rightarrow> provided) fnProp"
  component :: "string fnProp"
  output' :: "(item \<Rightarrow> string \<Rightarrow> string) fnProp"

text \<open>\<open>trigger\<close> lists the entries of the object in the order of \<open>Object.keys\<close>; \<open>onChange\<close>
  and \<open>onCaretPositionChange\<close> say whether the callback is configured (its calls are recorded
  in the world); \<open>loadingComponent\<close> says whether one is given.\<close>

record textareaProps =
  trigger :: "(string \<times> settingType) list"
  loadingComponent :: bool
  minChar :: int
  onChange :: bool
  onCaretPositionChange :: bool
  propValue :: string

text \<open>\<open>static defaultProps\<close>, for a given \<open>trigger\<close> and \<open>loadingComponent\<close>.\<close>

definition defaultProps :: "(string \<times> settingType) list \<Rightarrow> bool \<Rightarrow> textareaProps" where
  "defaultProps trg lc =
     \<lparr>trigger = trg, loadingComponent = lc, minChar = 1, onChange = False,
      onCaretPositionChange = False, propValue = []\<rparr>"

record textareaState =
  top' :: int
  left' :: int
  currentTrigger :: "string option"
  actualToken :: string
  data :: jsval
  value' :: string
  dataLoading :: bool
  selectionEnd :: nat
  selectionStart :: nat
  component :: "string option"

text \<open>The textarea element behind \<open>this.textareaRef\<close>.\<close>

record domTextarea =
  domValue :: string
  domSelectionStart :: nat
  domSelectionEnd :: nat

text \<open>A fetch in flight: the promise \<open>providedData\<close> with what it will settle to, and the
  \<open>component\<close> its callback has captured.\<close>

record fetch =
  providedData :: settled
  fetchComponent :: "string fnProp"

text \<open>What the host and the textarea see, in order.\<close>

datatype effect =
    StateValue string
  | ChangeEventDispatched
  | OnChangeCalled string
  | Focused
  | SelectionRangeSet nat nat
  | OnCaretPositionChangeCalled nat

record world =
  props :: textareaProps
  state :: textareaState
  tokenRegExp :: string
  textareaRef :: "domTextarea option"
  pending :: "fetch list"
  effects :: "effect list"

text \<open>The initial \<open>state\<close> and the constructor.\<close>

definition initialState :: textareaState where
  "initialState =
     \<lparr>top' = 0, left' = 0, currentTrigger = None, actualToken = [], data = JNull,
      value' = [], dataLoading = False, selectionEnd = 0, selectionStart = 0,
      component = None\<rparr>"

definition constructor :: "textareaProps \<Rightarrow> error + world" where
  "constructor p =
     (if \<not> loadingComponent p then Inl (Error ''RTA: loadingComponent is not defined'')
      else Inr \<lparr>props = p,
                state = (if propValue p \<noteq> [] then initialState\<lparr>value' := propValue p\<rparr>
                         else initialState),
                tokenRegExp = concat (map fst (trigger p)),
                textareaRef = None, pending = [], effects = []\<rparr>)"

section \<open>The methods of the component\<close>

text \<open>
  \<open>setState\<close> is written as an update of the \<open>state\<close> field at the place of the call. React
  may apply the update later, at the end of the running handler and before the callback
  given to \<open>setState\<close>; every read of \<open>this.state\<close> between a call and the end of its
  handler is of fields that the pending updates do not set, so the order makes no
  difference to what is read.
\<close>

definition truthy :: "jsval \<Rightarrow> bool" where
  "truthy v =
     (case v of JUndefined \<Rightarrow> False | JNull \<Rightarrow> False | JNumber n \<Rightarrow> n \<noteq> 0
      | JString s \<Rightarrow> s \<noteq> [] | JArray xs \<Rightarrow> True | JObject \<Rightarrow> True)"

text \<open>\<open>v.length\<close>; \<open>None\<close> is \<open>undefined\<close>.\<close>

definition lengthOf :: "jsval \<Rightarrow> nat option" where
  "lengthOf v =
     (case v of JString s \<Rightarrow> Some (length s) | JArray xs \<Rightarrow> Some (length xs) | _ \<Rightarrow> None)"

definition truthyTrigger :: "string option \<Rightarrow> bool" where
  "truthyTrigger t = (case t of None \<Rightarrow> False | Some k \<Rightarrow> k \<noteq> [])"

text \<open>\<open>_getSuggestions\<close>: \<open>if (!currentTrigger || !data || (data && !data.length)) return
  null; return data\<close>, the disjunction evaluated from left to right; \<open>None\<close> is \<open>null\<close>.\<close>

definition getSuggestions :: "textareaState \<Rightarrow> jsval option" where
  "getSuggestions st =
     (if \<not> truthyTrigger (currentTrigger st) then None
      else if \<not> truthy (data st) then None
      else if truthy (data st) \<and> (lengthOf (data st) = None \<or> lengthOf (data st) = Some 0)
      then None
      else Some (data st))"

text \<open>\<open>_closeAutocomplete\<close>, which the constructor registers for the escape key
  (\<open>Listeners.add(KEY_CODES.ESC, () => this._closeAutocomplete())\<close>).\<close>

definition closeAutocomplete :: "world \<Rightarrow> world" where
  "closeAutocomplete w =
     (if getSuggestions (state w) = None then w
      else w\<lparr>state := (state w)\<lparr>data := JNull\<rparr>\<rparr>)"

text \<open>\<open>_getCurrentTriggerSettings\<close>; \<open>None\<close> is \<open>null\<close> or \<open>undefined\<close>.\<close>

definition getCurrentTriggerSettings :: "textareaProps \<Rightarrow> textareaState \<Rightarrow> settingType option" where
  "getCurrentTriggerSettings p st =
     (if \<not> truthyTrigger (currentTrigger st) then None
      else map_of (trigger p) (the (currentTrigger st)))"

text \<open>\<open>_getTextToReplace\<close>, applied to an item.\<close>

definition getTextToReplace :: "textareaProps \<Rightarrow> textareaState \<Rightarrow> item \<Rightarrow> error + string" where
  "getTextToReplace p st it =
     (case (if truthyTrigger (currentTrigger st) then getCurrentTriggerSettings p st else None) of
        None \<Rightarrow> Inr []
      | Some triggerSettings \<Rightarrow>
          (case (it, output' triggerSettings) of
             (ItemObject ps, Absent) \<Rightarrow> Inl (Error ''RTA: Output function is not defined!'')
           | (ItemObject ps, NotCallable) \<Rightarrow> Inl (Error ''RTA: Output function is not defined!'')
           | (_, Callable f) \<Rightarrow> Inr (f it (the (currentTrigger st)))
           | (ItemString s, NotCallable) \<Rightarrow> Inl (TypeError ''output is not a function'')
           | (ItemString s, Absent) \<Rightarrow>
               Inr (the (currentTrigger st) @ s @ the (currentTrigger st))))"

text \<open>
  The textarea element: assigning a new value moves the selection to the end of the text,
  and \<open>setSelectionRange\<close> clamps its arguments to the length of the text.
\<close>

definition domSetValue :: "string \<Rightarrow> domTextarea \<Rightarrow> domTextarea" where
  "domSetValue v ta =
     (if domValue ta = v then ta
      else \<lparr>domValue = v, domSelectionStart = length v, domSelectionEnd = length v\<rparr>)"

definition domSetSelectionRange :: "nat \<Rightarrow> nat \<Rightarrow> domTextarea \<Rightarrow> domTextarea" where
  "domSetSelectionRange a b ta =
     ta\<lparr>domSelectionStart := min (min a b) (length (domValue ta)),
        domSelectionEnd := min b (length (domValue ta))\<rparr>"

text \<open>Setting \<open>value\<close> in the state renders it into the textarea.\<close>

definition setStateValue :: "string \<Rightarrow> world \<Rightarrow> world" where
  "setStateValue v w =
     w\<lparr>state := (state w)\<lparr>value' := v\<rparr>,
       textareaRef := map_option (domSetValue v) (textareaRef w),
       effects := effects w @ [StateValue v]\<rparr>"

definition setCaretPosition :: "nat \<Rightarrow> world \<Rightarrow> world" where
  "setCaretPosition position w =
     (case textareaRef w of
        None \<Rightarrow> w
      | Some ta \<Rightarrow>
          w\<lparr>textareaRef := Some (domSetSelectionRange position position ta),
            effects := effects w @ [Focused, SelectionRangeSet position position]\<rparr>)"

definition getCaretPosition :: "world \<Rightarrow> nat" where
  "getCaretPosition w = (case textareaRef w of None \<Rightarrow> 0 | Some ta \<Rightarrow> domSelectionEnd ta)"

text \<open>The first two statements of the callback that \<open>_onSelect\<close> gives to \<open>setState\<close>:
  \<open>this.textareaRef.dispatchEvent(e); if (onChange) onChange(e)\<close>. The event's target is
  the textarea, so the host reads the text of the textarea from it.\<close>

definition fireChange :: "world \<Rightarrow> error + world" where
  "fireChange w =
     (case textareaRef w of
        None \<Rightarrow> Inl (TypeError ''Cannot read property dispatchEvent of null'')
      | Some ta \<Rightarrow>
          Inr (w\<lparr>effects := effects w @ [ChangeEventDispatched]
                      @ (if onChange (props w) then [OnChangeCalled (domValue ta)] else [])\<rparr>))"

text \<open>\<open>if (onCaretPositionChange) onCaretPositionChange(this.getCaretPosition())\<close>, which is
  \<open>_selectHandler\<close> and a part of \<open>_changeHandler\<close>.\<close>

definition selectHandler :: "world \<Rightarrow> world" where
  "selectHandler w =
     (if onCaretPositionChange (props w)
      then w\<lparr>effects := effects w @ [OnCaretPositionChangeCalled (getCaretPosition w)]\<rparr>
      else w)"

text \<open>\<open>_onSelect\<close> of src/Textarea.jsx.\<close>

definition onSelect :: "string \<Rightarrow> world \<Rightarrow> error + world" where
  "onSelect newToken w =
     (let textareaValue = value' (state w);
          selEnd = selectionEnd (state w);
          w1 = setStateValue (newValue textareaValue selEnd newToken) w;
          w2 = w1\<lparr>state := (state w1)\<lparr>dataLoading := False\<rparr>\<rparr>;
          w3 = closeAutocomplete w2
      in case fireChange w3 of
           Inl e \<Rightarrow> Inl e
         | Inr w4 \<Rightarrow> Inr (setCaretPosition (newCaretPosition textareaValue selEnd newToken) w4))"

text \<open>\<open>_onSelect\<close> of the second copy of the component (unnamed/part_001), whose callback
  ends with the call of \<open>onCaretPositionChange\<close>.\<close>

definition onSelect_part_001 :: "string \<Rightarrow> world \<Rightarrow> error + world" where
  "onSelect_part_001 newToken w =
     (let textareaValue = value' (state w);
          selEnd = selectionEnd (state w);
          w1 = setStateValue (newValue textareaValue selEnd newToken) w;
          w2 = w1\<lparr>state := (state w1)\<lparr>dataLoading := False\<rparr>\<rparr>;
          w3 = closeAutocomplete w2
      in case fireChange w3 of
           Inl e \<Rightarrow> Inl e
         | Inr w4 \<Rightarrow>
             Inr (selectHandler
                    (setCaretPosition (newCaretPosition textareaValue selEnd newToken) w4)))"

text \<open>\<open>Promise.resolve\<close> of what is not a promise already.\<close>

definition toPromise :: "provided \<Rightarrow> settled" where
  "toPromise p = (case p of Direct v \<Rightarrow> Fulfilled v | Promise s \<Rightarrow> s)"

text \<open>\<open>typeof\<close> of a promise.\<close>

definition typeofPromise :: "settled \<Rightarrow> string" where
  "typeofPromise p = ''object''"

text \<open>\<open>_getValuesFromProvider\<close> up to the call of \<open>then\<close>: the fetch is issued.\<close>

definition getValuesFromProvider :: "world \<Rightarrow> error + world" where
  "getValuesFromProvider w =
     (case (if truthyTrigger (currentTrigger (state w))
            then getCurrentTriggerSettings (props w) (state w) else None) of
        None \<Rightarrow> Inr w
      | Some triggerSettings \<Rightarrow>
          (case dataProvider triggerSettings of
             Callable f \<Rightarrow>
               Inr (w\<lparr>state := (state w)\<lparr>dataLoading := True\<rparr>,
                      pending := pending w
                        @ [\<lparr>providedData = toPromise (f (actualToken (state w))),
                            fetchComponent = settingType.component triggerSettings\<rparr>]\<rparr>)
           | _ \<Rightarrow> Inl (Error ''RTA: Trigger provider has to be a function!'')))"

text \<open>The callback given to \<open>then\<close>, run with the value the promise is fulfilled with.\<close>

definition thenCallback :: "fetch \<Rightarrow> jsval \<Rightarrow> world \<Rightarrow> error + world" where
  "thenCallback f d w =
     (if typeofPromise (providedData f) \<noteq> ''object''
      then Inl (Error ''RTA: Trigger provider has to provide an array!'')
      else (case fetchComponent f of
              Callable c \<Rightarrow>
                Inr (w\<lparr>state := (state w)\<lparr>dataLoading := False, data := d, component := Some c\<rparr>\<rparr>)
            | _ \<Rightarrow> Inl (Error ''RTA: Component should be defined!'')))"

text \<open>The callback given to \<open>catch\<close>: it throws, and nothing handles the rejection.\<close>

definition catchCallback :: "error \<Rightarrow> error" where
  "catchCallback e = Error (''RTA: dataProvider fails: '' @ message e)"

text \<open>The fetch at index \<open>i\<close> of the fetches in flight settles; they settle in any order.\<close>

definition settle :: "nat \<Rightarrow> world \<Rightarrow> error + world" where
  "settle i w =
     (if length (pending w) \<le> i then Inr w
      else (let f = pending w ! i;
                w1 = w\<lparr>pending := take i (pending w) @ drop (Suc i) (pending w)\<rparr>
            in case providedData f of
                 Rejected m \<Rightarrow> Inl (catchCallback (Error m))
               | Fulfilled d \<Rightarrow>
                   (case thenCallback f d w1 of
                      Inl e \<Rightarrow> Inl (catchCallback e)
                    | Inr w2 \<Rightarrow> Inr w2)))"

text \<open>\<open>_changeHandler\<close>. The event's target is the textarea after the edit;
  \<open>getCaretCoordinates\<close> belongs to another package, its result comes with the event.\<close>

definition changeHandler :: "domTextarea \<Rightarrow> int \<times> int \<Rightarrow> world \<Rightarrow> error + world" where
  "changeHandler textarea coords w =
     (let w0 = w\<lparr>textareaRef := Some textarea\<rparr>;
          w1 = (if onChange (props w0)
                then w0\<lparr>effects := effects w0 @ [OnChangeCalled (domValue textarea)]\<rparr> else w0);
          w2 = selectHandler w1;
          w3 = setStateValue (domValue textarea) w2
      in case tokenizer (tokenRegExp w3) (map fst (trigger (props w3))) (minChar (props w3))
                (domValue textarea) (domSelectionEnd textarea) of
           NoToken \<Rightarrow> Inr (closeAutocomplete w3)
         | TriggerNotConfigured \<Rightarrow> Inr w3
         | Token t tok \<Rightarrow>
             getValuesFromProvider
               (w3\<lparr>state := (state w3)\<lparr>top' := fst coords, left' := snd coords,
                      selectionEnd := domSelectionEnd textarea,
                      selectionStart := domSelectionStart textarea,
                      currentTrigger := Some t, actualToken := tok\<rparr>\<rparr>))"

text \<open>What \<open>render\<close> shows: the overlay \<open>rta__autocomplete\<close>, the values given to the list,
  and the loader.\<close>

record view =
  overlayShown :: bool
  listValues :: "jsval option"
  loaderShown :: bool

definition render :: "world \<Rightarrow> view" where
  "render w =
     (let suggestionData = getSuggestions (state w);
          shown = (dataLoading (state w) \<or> suggestionData \<noteq> None)
      in \<lparr>overlayShown = shown,
          listValues = (if shown \<and> textareaState.component (state w) \<noteq> None
                        then suggestionData else None),
          loaderShown = (shown \<and> dataLoading (state w))\<rparr>)"

text \<open>
  Modelled from the spec: the list of candidates (the module ./List, which is not among
  the sources) gets \<open>getTextToReplace\<close> and \<open>onSelect\<close> from \<open>render\<close>; when the user chooses
  a candidate, the candidate's formatted replacement is what the splicer is given.
\<close>

definition selectItem :: "item \<Rightarrow> world \<Rightarrow> error + world" where
  "selectItem it w =
     (case getTextToReplace (props w) (state w) it of
        Inl e \<Rightarrow> Inl e
      | Inr newToken \<Rightarrow> onSelect newToken w)"

text \<open>The events of a run, one after the other until one of them throws.\<close>

datatype event =
    Change domTextarea "int \<times> int"
  | Escape
  | Settle nat
  | Choose item
  | SelectionChanged

fun step :: "event \<Rightarrow> world \<Rightarrow> error + world" where
  "step (Change ta coords) w = changeHandler ta coords w"
| "step Escape w = Inr (closeAutocomplete w)"
| "step (Settle i) w = settle i w"
| "step (Choose it) w = selectItem it w"
| "step SelectionChanged w = Inr (selectHandler w)"

fun run :: "event list \<Rightarrow> world \<Rightarrow> error + world" where
  "run [] w = Inr w"
| "run (e # es) w = (case step e w of Inl err \<Rightarrow> Inl err | Inr w1 \<Rightarrow> run es w1)"

text \<open>A run that starts with the constructor.\<close>

definition startRun :: "textareaProps \<Rightarrow> event list \<Rightarrow> error + world" where
  "startRun p es = (case constructor p of Inl e \<Rightarrow> Inl e | Inr w \<Rightarrow> run es w)"

text \<open>
  The trigger settings of the tests (unnamed/part_000) and of the scenarios: data providers
  \<open>() => v\<close>, \<open>() => Promise.resolve(v)\<close> and \<open>token => Promise.resolve([token])\<close>, the output
  function \<open>item => `__${item}__`\<close>, and a \<open>trigger\<close> object with the one key \<open>:\<close>.
\<close>

definition providing :: "jsval \<Rightarrow> string \<Rightarrow> provided" where
  "providing v tok = Direct v"

definition resolving :: "jsval \<Rightarrow> string \<Rightarrow> provided" where
  "resolving v tok = Promise (Fulfilled v)"

definition echoing :: "string \<Rightarrow> provided" where
  "echoing tok = Promise (Fulfilled (JArray [ItemString tok]))"

definition underscored :: "item \<Rightarrow> string \<Rightarrow> string" where
  "underscored it t =
     (case it of ItemString s \<Rightarrow> ''__'' @ s @ ''__''
      | ItemObject ps \<Rightarrow> ''__[object Object]__'')"

definition colonTrigger ::
    "(string \<Rightarrow> provided) \<Rightarrow> (item \<Rightarrow> string \<Rightarrow> string) fnProp \<Rightarrow> (string \<times> settingType) list" where
  "colonTrigger provider out =
     [('':'', \<lparr>dataProvider = Callable provider, component = Callable ''SmileItemComponent'',
              output' = out\<rparr>)]"

section \<open>The words of the specification, for comparison\<close>

text \<open>The pattern \<open>[cls]\w*$\<close> matches at index \<open>i\<close> of \<open>s\<close>: a character of the class
  stands there and only word characters follow it.\<close>

definition matchesAt :: "string \<Rightarrow> string \<Rightarrow> nat \<Rightarrow> bool" where
  "matchesAt cls s i \<longleftrightarrow> i < length s \<and> s ! i \<in> set cls \<and> list_all isWord (drop (Suc i) s)"

text \<open>The specification's tokenizer: "the longest trailing run of non-whitespace
  characters in T ending exactly at C".\<close>

definition spec_trailingRun :: "string \<Rightarrow> nat \<Rightarrow> string" where
  "spec_trailingRun T C = rev (takeWhile (\<lambda>c. \<not> isSpace c) (rev (take C T)))"

text \<open>"... begins with a configured trigger character and its length exceeds minChar".\<close>

definition spec_tokenizerMatch :: "string list \<Rightarrow> int \<Rightarrow> string \<Rightarrow> nat \<Rightarrow> bool" where
  "spec_tokenizerMatch triggerChars minCh T C \<longleftrightarrow>
     spec_trailingRun T C \<noteq> [] \<and> take 1 (spec_trailingRun T C) \<in> set triggerChars
     \<and> minCh < int (length (spec_trailingRun T C))"

section \<open>Facts about the built-ins and the splicer\<close>

lemma offsetLoop_eq:
  "offsetLoop t s off = off + length (takeWhile (\<lambda>x. \<not> isSpace x) (drop (s + off) t))"
proof (induction t s off rule: offsetLoop.induct)
  case (1 t s off)
  show ?case
  proof (cases "s + off < length t")
    case inside: True
    then have d: "drop (s + off) t = t ! (s + off) # drop (s + Suc off) t"
      by (simp add: Cons_nth_drop_Suc)
    show ?thesis
    proof (cases "isSpace (t ! (s + off))")
      case True
      with inside show ?thesis
        by (subst offsetLoop.simps) (simp add: d)
    next
      case False
      with inside 1 show ?thesis
        by (subst offsetLoop.simps) (simp add: d)
    qed
  next
    case False
    then show ?thesis
      by (subst offsetLoop.simps) simp
  qed
qed

lemma offsetToEndOfToken_eq:
  "offsetToEndOfToken t s = length (takeWhile (\<lambda>x. \<not> isSpace x) (drop s t))"
  by (simp add: offsetToEndOfToken_def offsetLoop_eq)

lemma indexOf_prefix: "prefix pat str \<Longrightarrow> indexOf str pat = Some 0"
  by (cases str) auto

text \<open>A replacement text without a pattern is substituted as it is, and one with a
  pattern is not: with nothing matched and nothing around the match it gets shorter.\<close>

lemma getSubstitution_no_pattern:
  "\<not> hasDollarPattern r \<Longrightarrow> getSubstitution m b a r = r"
  by (induction m b a r rule: getSubstitution.induct) auto

lemma getSubstitution_length_le:
  "length (getSubstitution [] [] [] r) \<le> length r"
  by (induction "[] :: string" "[] :: string" "[] :: string" r rule: getSubstitution.induct) auto

lemma getSubstitution_pattern_shortens:
  "hasDollarPattern r \<Longrightarrow> length (getSubstitution [] [] [] r) < length r"
proof (induction r rule: hasDollarPattern.induct)
  case (3 c d r)
  show ?case
  proof (cases "c = CHR ''$'' \<and> d \<in> set [CHR ''$'', CHR ''&'', CHR 0x60, CHR 0x27]")
    case True
    then show ?thesis
      using getSubstitution_length_le [of r] by auto
  next
    case False
    from "3.prems" False have "hasDollarPattern (d # r)" by auto
    then have "length (getSubstitution [] [] [] (d # r)) < length (d # r)"
      using "3.IH" by simp
    with False show ?thesis by auto
  qed
qed simp_all

lemma no_dollar_no_pattern: "CHR ''$'' \<notin> set r \<Longrightarrow> \<not> hasDollarPattern r"
  by (induction r rule: hasDollarPattern.induct) auto

lemma search_le: "searchNonSpaceToEnd xs \<le> length xs"
  by (induction xs) auto

lemma search_all: "list_all (\<lambda>x. \<not> isSpace x) (drop (searchNonSpaceToEnd xs) xs)"
  by (induction xs) auto

lemma search_least:
  "i < searchNonSpaceToEnd xs \<Longrightarrow> \<not> list_all (\<lambda>x. \<not> isSpace x) (drop i xs)"
proof (induction xs arbitrary: i)
  case Nil
  then show ?case by simp
next
  case (Cons c cs)
  then show ?case
    by (cases i) (auto split: if_splits)
qed

lemma startOfTokenPosition_le:
  "startOfTokenPosition t s \<le> s + offsetToEndOfToken t s"
  unfolding startOfTokenPosition_def textToModify_def
  using search_le [of "take (s + offsetToEndOfToken t s) t"] by simp

lemma replaceString_prefix:
  "replaceString t (take e t) r = getSubstitution (take e t) [] (drop e t) r @ drop e t"
proof -
  have "indexOf t (take e t) = Some 0"
    by (rule indexOf_prefix) (simp add: take_is_prefix)
  moreover have "drop (min (length t) e) t = drop e t"
    by (cases "e \<le> length t") (simp_all add: min_def)
  ultimately show ?thesis
    by (simp add: replaceString_def)
qed

lemma newValue_eq:
  "newValue t s n =
     getSubstitution (textToModify t s) [] (drop (s + offsetToEndOfToken t s) t)
       (modifiedText t s n)
     @ drop (s + offsetToEndOfToken t s) t"
  by (simp add: newValue_def textToModify_def replaceString_prefix)

lemma modifiedText_eq:
  "modifiedText t s n = take (startOfTokenPosition t s) t @ n"
  using startOfTokenPosition_le [of t s]
  by (simp add: modifiedText_def textToModify_def min_def)

lemma newValue_plain:
  assumes "\<not> hasDollarPattern (take (startOfTokenPosition t s) t @ n)"
  shows "newValue t s n =
           take (startOfTokenPosition t s) t @ n @ drop (s + offsetToEndOfToken t s) t"
  using assms by (simp add: newValue_eq modifiedText_eq getSubstitution_no_pattern)


lemma closeAutocomplete_fields [simp]:
  "value' (state (closeAutocomplete w)) = value' (state w)"
  "dataLoading (state (closeAutocomplete w)) = dataLoading (state w)"
  "currentTrigger (state (closeAutocomplete w)) = currentTrigger (state w)"
  "actualToken (state (closeAutocomplete w)) = actualToken (state w)"
  "selectionEnd (state (closeAutocomplete w)) = selectionEnd (state w)"
  "textareaState.component (state (closeAutocomplete w)) = textareaState.component (state w)"
  "textareaRef (closeAutocomplete w) = textareaRef w"
  "effects (closeAutocomplete w) = effects w"
  "pending (closeAutocomplete w) = pending w"
  "props (closeAutocomplete w) = props w"
  "tokenRegExp (closeAutocomplete w) = tokenRegExp w"
  by (simp_all add: closeAutocomplete_def)

lemma closeAutocomplete_getSuggestions [simp]:
  "getSuggestions (state (closeAutocomplete w)) = None"
  by (simp add: closeAutocomplete_def getSuggestions_def truthy_def)

lemma onSelect_unmounted:
  "textareaRef w = None \<Longrightarrow> \<exists>e. onSelect n w = Inl e"
  by (simp add: onSelect_def Let_def fireChange_def setStateValue_def)

lemma onSelect_mounted:
  assumes "textareaRef w = Some ta"
  shows "\<exists>w'. onSelect n w = Inr w'"
  using assms by (simp add: onSelect_def Let_def fireChange_def setStateValue_def)

lemma onSelect_value:
  assumes "onSelect n w = Inr w'"
  shows "value' (state w') = newValue (value' (state w)) (selectionEnd (state w)) n"
  using assms
  by (auto simp: onSelect_def Let_def fireChange_def setStateValue_def setCaretPosition_def
      split: option.splits sum.splits)

lemma onSelect_effects:
  assumes "onSelect n w = Inr w'"
  shows "effects w' = effects w
           @ [StateValue (newValue (value' (state w)) (selectionEnd (state w)) n),
              ChangeEventDispatched]
           @ (if onChange (props w)
              then [OnChangeCalled (newValue (value' (state w)) (selectionEnd (state w)) n)] else [])
           @ [Focused,
              SelectionRangeSet (newCaretPosition (value' (state w)) (selectionEnd (state w)) n)
                (newCaretPosition (value' (state w)) (selectionEnd (state w)) n)]"
  using assms
  by (auto simp: onSelect_def Let_def fireChange_def setStateValue_def setCaretPosition_def
      domSetValue_def split: option.splits sum.splits if_splits)

text \<open>Unfolding the definitions evaluates the splicer and the handlers on given inputs.\<close>

lemmas splice_eval = newValue_def newCaretPosition_def modifiedText_def startOfTokenPosition_def
  textToModify_def offsetToEndOfToken_eq replaceString_def isSpace_def

lemmas world_eval = constructor_def defaultProps_def initialState_def changeHandler_def
  selectHandler_def getCaretPosition_def setStateValue_def domSetValue_def
  domSetSelectionRange_def tokenizer_def lastToken_def isWord_def closeAutocomplete_def
  getSuggestions_def truthy_def truthyTrigger_def lengthOf_def getValuesFromProvider_def
  getCurrentTriggerSettings_def toPromise_def settle_def thenCallback_def typeofPromise_def
  catchCallback_def selectItem_def getTextToReplace_def onSelect_def onSelect_part_001_def
  fireChange_def setCaretPosition_def render_def Let_def startRun_def providing_def
  resolving_def echoing_def underscored_def colonTrigger_def

section \<open>Facts about the tokenizer\<close>

lemma exec_None_iff:
  "execTokenRegExp cls s = None \<longleftrightarrow> (\<forall>i. \<not> matchesAt cls s i)"
proof (induction s)
  case Nil
  then show ?case by (simp add: matchesAt_def)
next
  case (Cons c cs)
  have step: "matchesAt cls (c # cs) i \<longleftrightarrow>
      (case i of 0 \<Rightarrow> c \<in> set cls \<and> list_all isWord cs | Suc j \<Rightarrow> matchesAt cls cs j)" for i
    by (cases i) (auto simp: matchesAt_def)
  show ?case
  proof (cases "c \<in> set cls \<and> list_all isWord cs")
    case True
    then have "matchesAt cls (c # cs) 0" by (simp add: step)
    with True show ?thesis by auto
  next
    case False
    then have e: "execTokenRegExp cls (c # cs) = execTokenRegExp cls cs" by auto
    have "execTokenRegExp cls (c # cs) = None \<longleftrightarrow> (\<forall>j. \<not> matchesAt cls cs j)"
      unfolding e by (rule Cons.IH)
    also have "\<dots> \<longleftrightarrow> (\<forall>i. \<not> matchesAt cls (c # cs) i)"
    proof
      assume a: "\<forall>j. \<not> matchesAt cls cs j"
      show "\<forall>i. \<not> matchesAt cls (c # cs) i"
      proof
        fix i show "\<not> matchesAt cls (c # cs) i"
          using a False by (cases i) (simp_all add: step)
      qed
    next
      assume a: "\<forall>i. \<not> matchesAt cls (c # cs) i"
      show "\<forall>j. \<not> matchesAt cls cs j"
      proof
        fix j from a have "\<not> matchesAt cls (c # cs) (Suc j)" by blast
        then show "\<not> matchesAt cls cs j" by (simp add: step)
      qed
    qed
    finally show ?thesis .
  qed
qed

lemma exec_Some_iff:
  "execTokenRegExp cls s = Some tok \<longleftrightarrow>
     (\<exists>i. matchesAt cls s i \<and> (\<forall>j<i. \<not> matchesAt cls s j) \<and> tok = drop i s)"
proof (induction s)
  case Nil
  then show ?case by (simp add: matchesAt_def)
next
  case (Cons c cs)
  have step: "matchesAt cls (c # cs) i \<longleftrightarrow>
      (case i of 0 \<Rightarrow> c \<in> set cls \<and> list_all isWord cs | Suc j \<Rightarrow> matchesAt cls cs j)" for i
    by (cases i) (auto simp: matchesAt_def)
  show ?case
  proof (cases "c \<in> set cls \<and> list_all isWord cs")
    case True
    then have m0: "matchesAt cls (c # cs) 0" by (simp add: step)
    show ?thesis
    proof
      assume "execTokenRegExp cls (c # cs) = Some tok"
      with True have "tok = drop 0 (c # cs)" by auto
      with m0 show "\<exists>i. matchesAt cls (c # cs) i \<and> (\<forall>j<i. \<not> matchesAt cls (c # cs) j) \<and> tok = drop i (c # cs)"
        by blast
    next
      assume "\<exists>i. matchesAt cls (c # cs) i \<and> (\<forall>j<i. \<not> matchesAt cls (c # cs) j) \<and> tok = drop i (c # cs)"
      then obtain i where i: "\<forall>j<i. \<not> matchesAt cls (c # cs) j" "tok = drop i (c # cs)" by blast
      from i(1) m0 have "i = 0" by (cases i) auto
      with i(2) True show "execTokenRegExp cls (c # cs) = Some tok" by simp
    qed
  next
    case False
    then have n0: "\<not> matchesAt cls (c # cs) 0" by (simp add: step)
    from False have e: "execTokenRegExp cls (c # cs) = execTokenRegExp cls cs" by auto
    have "execTokenRegExp cls (c # cs) = Some tok \<longleftrightarrow>
        (\<exists>i. matchesAt cls cs i \<and> (\<forall>j<i. \<not> matchesAt cls cs j) \<and> tok = drop i cs)"
      unfolding e by (rule Cons.IH)
    also have "\<dots> \<longleftrightarrow> (\<exists>i. matchesAt cls (c # cs) i \<and> (\<forall>j<i. \<not> matchesAt cls (c # cs) j) \<and> tok = drop i (c # cs))"
    proof
      assume "\<exists>i. matchesAt cls cs i \<and> (\<forall>j<i. \<not> matchesAt cls cs j) \<and> tok = drop i cs"
      then obtain i where i: "matchesAt cls cs i" "\<forall>j<i. \<not> matchesAt cls cs j" "tok = drop i cs"
        by blast
      have "\<forall>j<Suc i. \<not> matchesAt cls (c # cs) j"
      proof (intro allI impI)
        fix j assume "j < Suc i"
        then show "\<not> matchesAt cls (c # cs) j"
          using i(2) n0 by (cases j) (simp_all add: step)
      qed
      moreover have "matchesAt cls (c # cs) (Suc i)" using i(1) by (simp add: step)
      moreover have "tok = drop (Suc i) (c # cs)" using i(3) by simp
      ultimately show "\<exists>i. matchesAt cls (c # cs) i \<and> (\<forall>j<i. \<not> matchesAt cls (c # cs) j) \<and> tok = drop i (c # cs)"
        by blast
    next
      assume "\<exists>i. matchesAt cls (c # cs) i \<and> (\<forall>j<i. \<not> matchesAt cls (c # cs) j) \<and> tok = drop i (c # cs)"
      then obtain i where i: "matchesAt cls (c # cs) i" "\<forall>j<i. \<not> matchesAt cls (c # cs) j"
          "tok = drop i (c # cs)" by blast
      from i(1) n0 obtain k where k: "i = Suc k" by (cases i) auto
      have "\<forall>j<k. \<not> matchesAt cls cs j"
      proof (intro allI impI)
        fix j assume "j < k"
        then have "\<not> matchesAt cls (c # cs) (Suc j)" using i(2) k by simp
        then show "\<not> matchesAt cls cs j" by (simp add: step)
      qed
      moreover have "matchesAt cls cs k" using i(1) k by (simp add: step)
      moreover have "tok = drop k cs" using i(3) k by simp
      ultimately show "\<exists>i. matchesAt cls cs i \<and> (\<forall>j<i. \<not> matchesAt cls cs j) \<and> tok = drop i cs"
        by blast
    qed
    finally show ?thesis .
  qed
qed

lemma exec_nonempty: "execTokenRegExp cls s = Some tok \<Longrightarrow> tok \<noteq> []"
  by (induction s) (auto split: if_splits)

lemma find_single:
  "find (\<lambda>a. a = k) ks = Some t \<longleftrightarrow> t = k \<and> k \<in> set ks"
  by (induction ks) auto

lemma find_single_None:
  "find (\<lambda>a. a = k) ks = None \<longleftrightarrow> k \<notin> set ks"
  by (induction ks) auto

lemma take1_drop: "i < length xs \<Longrightarrow> take 1 (drop i xs) = [xs ! i]"
  by (subst Cons_nth_drop_Suc [symmetric]) simp_all

section \<open>Facts about the commit\<close>

lemma onSelect_textarea:
  assumes "onSelect n w = Inr w'" and "textareaRef w = Some ta"
  shows "textareaRef w' =
           Some (domSetSelectionRange
                   (newCaretPosition (value' (state w)) (selectionEnd (state w)) n)
                   (newCaretPosition (value' (state w)) (selectionEnd (state w)) n)
                   (domSetValue (newValue (value' (state w)) (selectionEnd (state w)) n) ta))"
  using assms
  by (auto simp: onSelect_def Let_def fireChange_def setStateValue_def setCaretPosition_def
      split: option.splits sum.splits)

lemma domValue_domSetValue [simp]: "domValue (domSetValue v ta) = v"
  by (simp add: domSetValue_def)

lemma onSelect_part_001_eq:
  "onSelect_part_001 n w = map_sum id selectHandler (onSelect n w)"
  by (simp add: onSelect_part_001_def onSelect_def Let_def split: sum.splits)

lemma selectHandler_effects:
  "effects (selectHandler w) =
     effects w @ (if onCaretPositionChange (props w)
                  then [OnCaretPositionChangeCalled (getCaretPosition w)] else [])"
  by (simp add: selectHandler_def)

lemma onSelect_props:
  assumes "onSelect n w = Inr w'"
  shows "props w' = props w"
  using assms
  by (auto simp: onSelect_def Let_def fireChange_def setStateValue_def setCaretPosition_def
      split: option.splits sum.splits)

text \<open>The token start that \<open>search\<close> finds is where the trailing run of non-whitespace
  characters begins.\<close>

lemma search_eq:
  "searchNonSpaceToEnd xs = length xs - length (takeWhile (\<lambda>c. \<not> isSpace c) (rev xs))"
proof (induction xs)
  case Nil
  then show ?case by simp
next
  case (Cons c cs)
  show ?case
  proof (cases "list_all (\<lambda>x. \<not> isSpace x) (c # cs)")
    case True
    then have "\<forall>x\<in>set (rev (c # cs)). \<not> isSpace x"
      by (auto simp: list_all_iff)
    then have tw: "takeWhile (\<lambda>c. \<not> isSpace c) (rev (c # cs)) = rev (c # cs)"
      unfolding takeWhile_eq_all_conv .
    from True have s0: "searchNonSpaceToEnd (c # cs) = 0" by simp
    have "length (c # cs) - length (takeWhile (\<lambda>c. \<not> isSpace c) (rev (c # cs))) = 0"
      by (simp only: tw length_rev diff_self_eq_0)
    with s0 show ?thesis by (simp only:)
  next
    case False
    then have "\<exists>x\<in>set (c # cs). isSpace x" by (auto simp: list_all_iff)
    then consider "\<exists>x\<in>set cs. isSpace x" | "\<forall>x\<in>set cs. \<not> isSpace x" "isSpace c" by auto
    then show ?thesis
    proof cases
      case 1
      then have "takeWhile (\<lambda>c. \<not> isSpace c) (rev cs @ [c]) = takeWhile (\<lambda>c. \<not> isSpace c) (rev cs)"
        by (intro takeWhile_append1 [where x = "SOME x. x \<in> set cs \<and> isSpace x"])
           (auto intro: someI2_ex)
      moreover have "length (takeWhile (\<lambda>c. \<not> isSpace c) (rev cs)) \<le> length cs"
        using length_takeWhile_le [of _ "rev cs"] by simp
      ultimately show ?thesis using False Cons by simp
    next
      case 2
      then have "takeWhile (\<lambda>c. \<not> isSpace c) (rev cs @ [c]) = rev cs"
        by (subst takeWhile_append2) auto
      moreover from 2 have "list_all (\<lambda>x. \<not> isSpace x) cs" by (simp add: list_all_iff)
      then have "searchNonSpaceToEnd cs = 0" by (cases cs) auto
      ultimately show ?thesis using False by simp
    qed
  qed
qed

text \<open>When the text before the token start and the replacement hold no pattern, the commit
  replaces the token and the textarea's caret stands behind the replacement.\<close>

lemma onSelect_plain:
  assumes sel: "onSelect n w = Inr w'"
    and plain: "\<not> hasDollarPattern
                  (take (startOfTokenPosition (value' (state w)) (selectionEnd (state w)))
                     (value' (state w)) @ n)"
  shows "value' (state w') =
           take (startOfTokenPosition (value' (state w)) (selectionEnd (state w)))
             (value' (state w))
           @ n
           @ drop (selectionEnd (state w)
                   + offsetToEndOfToken (value' (state w)) (selectionEnd (state w)))
               (value' (state w))
         \<and> map_option domSelectionEnd (textareaRef w') =
             Some (startOfTokenPosition (value' (state w)) (selectionEnd (state w)) + length n)"
proof -
  let ?v = "value' (state w)" and ?s = "selectionEnd (state w)"
  let ?e = "?s + offsetToEndOfToken ?v ?s"
  let ?b = "startOfTokenPosition ?v ?s"
  from plain have nv: "newValue ?v ?s n = take ?b ?v @ n @ drop ?e ?v"
    by (rule newValue_plain)
  have "?b \<le> length (textToModify ?v ?s)"
    unfolding startOfTokenPosition_def by (rule search_le)
  then have ble: "?b \<le> length ?v" by (simp add: textToModify_def)
  from sel obtain ta where ta: "textareaRef w = Some ta"
    using onSelect_unmounted [of w n] by (cases "textareaRef w") auto
  have "length (newValue ?v ?s n) = ?b + length n + length (drop ?e ?v)"
    unfolding nv using ble by simp
  then have "map_option domSelectionEnd (textareaRef w') = Some (?b + length n)"
    using onSelect_textarea [OF sel ta]
    by (simp add: domSetSelectionRange_def newCaretPosition_def)
  with nv onSelect_value [OF sel] show ?thesis by simp
qed

text \<open>Default formatting: without an \<open>output\<close> function the replacement of a string
  candidate is the candidate between two trigger characters, and it is what choosing the
  candidate commits.\<close>

lemma getTextToReplace_default:
  assumes "currentTrigger (state w) = Some t" and "t \<noteq> []"
    and "map_of (trigger (props w)) t = Some settings" and "output' settings = Absent"
  shows "getTextToReplace (props w) (state w) (ItemString c) = Inr (t @ c @ t)
     \<and> selectItem (ItemString c) w = onSelect (t @ c @ t) w"
  using assms
  by (simp add: selectItem_def getTextToReplace_def getCurrentTriggerSettings_def
      truthyTrigger_def)

section \<open>Facts about fetches and edits\<close>

text \<open>A fulfilled fetch whose component is a function stores what it resolved to.\<close>

lemma settle_fulfilled:
  assumes "i < length (pending w)" and "providedData (pending w ! i) = Fulfilled d"
    and "fetchComponent (pending w ! i) = Callable c"
  shows "settle i w =
           Inr (w\<lparr>pending := take i (pending w) @ drop (Suc i) (pending w),
                  state := (state w)\<lparr>dataLoading := False, data := d, component := Some c\<rparr>\<rparr>)"
  using assms by (simp add: settle_def thenCallback_def typeofPromise_def Let_def)

lemma settle_after_close:
  assumes "i < length (pending w)" and "providedData (pending w ! i) = Fulfilled d"
    and "fetchComponent (pending w ! i) = Callable c"
  shows "settle i (closeAutocomplete w) = settle i w"
proof -
  have p: "pending (closeAutocomplete w) = pending w" by simp
  show ?thesis
    using settle_fulfilled [of i "closeAutocomplete w" d c] settle_fulfilled [OF assms] assms
    unfolding p by (simp add: closeAutocomplete_def)
qed

lemma map_of_find_key:
  "map_of al k = Some v \<Longrightarrow> find (\<lambda>a. a = k) (map fst al) = Some k"
  by (induction al) (auto split: if_splits)

section \<open>The claims\<close>

subsection \<open>C2: when the tokenizer matches\<close>

text \<open>
  C2, as the code has it. The tokenizer returns a match exactly when the text before the
  caret has an index at which the pattern \<open>[triggers]\w*$\<close> matches (a character of the
  trigger class followed by word characters only, up to the caret) and, for the least such
  index \<open>i\<close>, the match is longer than \<open>minChar\<close> and its first character is one of the
  trigger keys. The match is then split into that first character and the rest.
\<close>

theorem C2_tokenizer_match:
  "tokenizer cls triggerChars minCh T C = Token t p \<longleftrightarrow>
     (\<exists>i. matchesAt cls (take C T) i \<and> (\<forall>j<i. \<not> matchesAt cls (take C T) j)
          \<and> minCh < int (length (drop i (take C T)))
          \<and> t = [take C T ! i] \<and> t \<in> set triggerChars
          \<and> p = drop (Suc i) (take C T))"
proof
  assume a: "tokenizer cls triggerChars minCh T C = Token t p"
  then obtain tok where tok: "execTokenRegExp cls (take C T) = Some tok"
    by (auto simp: tokenizer_def lastToken_def split: option.splits)
  from a tok have len: "minCh < int (length tok)" and f: "find (\<lambda>a. a = take 1 tok) triggerChars = Some t"
    and p: "p = drop 1 tok"
    by (auto simp: tokenizer_def lastToken_def split: option.splits if_splits)
  from tok obtain i where i: "matchesAt cls (take C T) i" "\<forall>j<i. \<not> matchesAt cls (take C T) j"
      "tok = drop i (take C T)"
    unfolding exec_Some_iff by blast
  from i(1) have il: "i < length (take C T)" by (simp add: matchesAt_def)
  then have t1: "take 1 tok = [take C T ! i]"
    using i(3) take1_drop [of i "take C T"] by simp
  from f have "t = take 1 tok" "take 1 tok \<in> set triggerChars" by (simp_all add: find_single)
  with t1 i len p show "\<exists>i. matchesAt cls (take C T) i \<and> (\<forall>j<i. \<not> matchesAt cls (take C T) j)
          \<and> minCh < int (length (drop i (take C T)))
          \<and> t = [take C T ! i] \<and> t \<in> set triggerChars
          \<and> p = drop (Suc i) (take C T)"
    by (intro exI [of _ i]) simp
next
  assume "\<exists>i. matchesAt cls (take C T) i \<and> (\<forall>j<i. \<not> matchesAt cls (take C T) j)
          \<and> minCh < int (length (drop i (take C T)))
          \<and> t = [take C T ! i] \<and> t \<in> set triggerChars
          \<and> p = drop (Suc i) (take C T)"
  then obtain i where i: "matchesAt cls (take C T) i" "\<forall>j<i. \<not> matchesAt cls (take C T) j"
     and len: "minCh < int (length (drop i (take C T)))"
     and t: "t = [take C T ! i]" "t \<in> set triggerChars" and p: "p = drop (Suc i) (take C T)"
    by blast
  define tok where "tok = drop i (take C T)"
  from i have tok: "execTokenRegExp cls (take C T) = Some tok"
    unfolding exec_Some_iff tok_def by blast
  from i(1) have il: "i < length (take C T)" by (simp add: matchesAt_def)
  then have t1: "take 1 tok = [take C T ! i]"
    unfolding tok_def using take1_drop [of i "take C T"] by simp
  have ne: "tok \<noteq> []" using tok by (rule exec_nonempty)
  have f: "find (\<lambda>a. a = take 1 tok) triggerChars = Some t"
    using t t1 by (simp add: find_single)
  have "drop 1 tok = p" unfolding tok_def p by simp
  with tok ne f len t show "tokenizer cls triggerChars minCh T C = Token t p"
    by (simp add: tokenizer_def lastToken_def tok_def)
qed

text \<open>An instance: in \<open>hello :ab\<close> with the caret at the end the match starts at the colon.\<close>

theorem C2_tokenizer_match_witness:
  "tokenizer '':'' ['':''] 1 ''hello :ab'' 9 = Token '':'' ''ab''
   \<and> (\<exists>i. matchesAt '':'' (take 9 ''hello :ab'') i
          \<and> (\<forall>j<i. \<not> matchesAt '':'' (take 9 ''hello :ab'') j)
          \<and> 1 < int (length (drop i (take 9 ''hello :ab'')))
          \<and> '':'' = [take 9 ''hello :ab'' ! i] \<and> '':'' \<in> set ['':'']
          \<and> ''ab'' = drop (Suc i) (take 9 ''hello :ab''))"
proof -
  have t: "tokenizer '':'' ['':''] 1 ''hello :ab'' 9 = Token '':'' ''ab''"
    by (simp add: tokenizer_def lastToken_def isWord_def)
  from t show ?thesis
    using iffD1 [OF C2_tokenizer_match t] by blast
qed

text \<open>
  C2 as stated fails in both directions. In \<open>a:bc\<close> the tokenizer matches \<open>:bc\<close>, while the
  longest trailing run of non-whitespace characters is \<open>a:bc\<close>, which does not begin with
  a trigger character. In \<open>:a-b\<close> that run begins with the trigger character and is longer
  than \<open>minChar\<close>, and the tokenizer does not match.
\<close>

theorem C2_counterexample:
  "tokenizer '':'' ['':''] 1 ''a:bc'' 4 = Token '':'' ''bc''
   \<and> \<not> spec_tokenizerMatch ['':''] 1 ''a:bc'' 4
   \<and> tokenizer '':'' ['':''] 1 '':a-b'' 4 = NoToken
   \<and> spec_tokenizerMatch ['':''] 1 '':a-b'' 4"
  by (simp add: tokenizer_def lastToken_def isWord_def spec_tokenizerMatch_def
      spec_trailingRun_def isSpace_def)

subsection \<open>C10: the text after the token\<close>

lemma onSelect_part_001_value:
  assumes "onSelect_part_001 n w = Inr w'"
  shows "value' (state w') = newValue (value' (state w)) (selectionEnd (state w)) n"
  using assms
  by (auto simp: onSelect_part_001_def Let_def fireChange_def setStateValue_def
      setCaretPosition_def selectHandler_def split: option.splits sum.splits if_splits)

text \<open>
  C10. After a commit (in either copy of \<open>_onSelect\<close>) the new text ends with the part of
  the old text that follows the token end, the position reached from the recorded caret
  offset by passing all contiguous non-whitespace characters.
\<close>

theorem C10_text_after_token_preserved:
  assumes "onSelect newToken w = Inr w' \<or> onSelect_part_001 newToken w = Inr w'"
  shows "suffix
           (drop (selectionEnd (state w)
                  + length (takeWhile (\<lambda>c. \<not> isSpace c)
                              (drop (selectionEnd (state w)) (value' (state w)))))
              (value' (state w)))
           (value' (state w'))"
proof -
  from assms
  have "value' (state w') = newValue (value' (state w)) (selectionEnd (state w)) newToken"
    by (auto dest: onSelect_value onSelect_part_001_value)
  then show ?thesis
    by (simp add: newValue_eq offsetToEndOfToken_eq suffix_def)
qed

theorem C10_text_after_token_preserved_witness:
  "\<exists>w w'. onSelect ''__x__'' w = Inr w' \<and> value' (state w) = ''hello :a world''
      \<and> selectionEnd (state w) = 8 \<and> suffix '' world'' (value' (state w'))"
proof -
  define w where "w =
    \<lparr>props = defaultProps [] True,
     state = initialState\<lparr>value' := ''hello :a world'', selectionEnd := 8\<rparr>,
     tokenRegExp = [],
     textareaRef = Some \<lparr>domValue = ''hello :a world'', domSelectionStart = 8,
                          domSelectionEnd = 8\<rparr>,
     pending = [], effects = []\<rparr>"
  have v: "value' (state w) = ''hello :a world''" and e: "selectionEnd (state w) = 8"
    by (simp_all add: w_def initialState_def)
  have "textareaRef w \<noteq> None" by (simp add: w_def)
  then obtain w' where s: "onSelect ''__x__'' w = Inr w'"
    using onSelect_mounted [of w _ "''__x__''"] by auto
  have "suffix '' world'' (value' (state w'))"
    using C10_text_after_token_preserved [OF disjI1 [OF s]]
    by (simp add: v e isSpace_def)
  with s v e show ?thesis by blast
qed

subsection \<open>C1: the splice\<close>

text \<open>
  C1, as the code has it. A commit scans forward from the recorded caret offset over
  non-whitespace characters to the token end, takes as token start the beginning of the
  run of non-whitespace characters that ends there, and sets the caret to start plus the
  length of the replacement. When the text before the token start followed by the
  replacement holds no pattern of \<open>replace\<close> (no \<open>$\<close> right before \<open>$\<close>, \<open>&\<close>, U+0060 or
  U+0027), the new text is the old one with the characters from start to end replaced by
  the replacement, and the caret of the textarea stands right behind the replacement.
\<close>

theorem C1_splice:
  assumes sel: "onSelect newToken w = Inr w'"
  shows "\<exists>tokenEnd tokenStart.
     tokenEnd = selectionEnd (state w)
        + length (takeWhile (\<lambda>c. \<not> isSpace c) (drop (selectionEnd (state w)) (value' (state w))))
     \<and> tokenStart = length (take tokenEnd (value' (state w)))
        - length (takeWhile (\<lambda>c. \<not> isSpace c) (rev (take tokenEnd (value' (state w)))))
     \<and> newCaretPosition (value' (state w)) (selectionEnd (state w)) newToken
         = tokenStart + length newToken
     \<and> last (effects w')
         = SelectionRangeSet (tokenStart + length newToken) (tokenStart + length newToken)
     \<and> (\<not> hasDollarPattern (take tokenStart (value' (state w)) @ newToken)
          \<longrightarrow> value' (state w') =
                take tokenStart (value' (state w)) @ newToken @ drop tokenEnd (value' (state w))
              \<and> map_option domSelectionEnd (textareaRef w')
                  = Some (tokenStart + length newToken))"
proof -
  let ?v = "value' (state w)" and ?s = "selectionEnd (state w)"
  let ?e = "?s + offsetToEndOfToken ?v ?s"
  let ?b = "startOfTokenPosition ?v ?s"
  have e: "?e = ?s + length (takeWhile (\<lambda>c. \<not> isSpace c) (drop ?s ?v))"
    by (simp add: offsetToEndOfToken_eq)
  have b: "?b = length (take ?e ?v)
                - length (takeWhile (\<lambda>c. \<not> isSpace c) (rev (take ?e ?v)))"
    unfolding startOfTokenPosition_def textToModify_def by (rule search_eq)
  have c: "newCaretPosition ?v ?s newToken = ?b + length newToken"
    by (simp add: newCaretPosition_def)
  have l: "last (effects w') = SelectionRangeSet (?b + length newToken) (?b + length newToken)"
    using onSelect_effects [OF sel] by (simp add: newCaretPosition_def)
  have v: "value' (state w') = take ?b ?v @ newToken @ drop ?e ?v
      \<and> map_option domSelectionEnd (textareaRef w') = Some (?b + length newToken)"
    if "\<not> hasDollarPattern (take ?b ?v @ newToken)"
    using onSelect_plain [OF sel that] .
  have "?e = ?s + length (takeWhile (\<lambda>c. \<not> isSpace c) (drop ?s ?v))
     \<and> ?b = length (take ?e ?v)
                - length (takeWhile (\<lambda>c. \<not> isSpace c) (rev (take ?e ?v)))
     \<and> newCaretPosition ?v ?s newToken = ?b + length newToken
     \<and> last (effects w') = SelectionRangeSet (?b + length newToken) (?b + length newToken)
     \<and> (\<not> hasDollarPattern (take ?b ?v @ newToken)
          \<longrightarrow> value' (state w') = take ?b ?v @ newToken @ drop ?e ?v
              \<and> map_option domSelectionEnd (textareaRef w') = Some (?b + length newToken))"
    using e b c l v by blast
  then show ?thesis by blast
qed

text \<open>Two instances. In \<open>hello :a world\<close> with the recorded caret offset 8 the replacement
  \<open>__x__\<close> gives \<open>hello __x__ world\<close>, and the caret offset is 11. In \<open>a $5 :ha now $$\<close>
  with the recorded caret offset 8 the replacement \<open>:happy:\<close> gives \<open>a $5 :happy: now $$\<close>
  with the caret offset 12: a \<open>$\<close> that starts no pattern, or stands behind the token, does
  no harm.\<close>

theorem C1_splice_witness:
  "\<exists>w w' u u'.
     value' (state w) = ''hello :a world'' \<and> selectionEnd (state w) = 8
     \<and> onSelect ''__x__'' w = Inr w'
     \<and> value' (state w') = ''hello __x__ world''
     \<and> map_option domSelectionEnd (textareaRef w') = Some 11
     \<and> value' (state u) = ''a $5 :ha now $$'' \<and> selectionEnd (state u) = 8
     \<and> onSelect '':happy:'' u = Inr u'
     \<and> value' (state u') = ''a $5 :happy: now $$''
     \<and> map_option domSelectionEnd (textareaRef u') = Some 12"
proof -
  define ta where "ta = \<lparr>domValue = ''hello :a world'', domSelectionStart = 8, domSelectionEnd = 8\<rparr>"
  define w where "w =
    \<lparr>props = defaultProps [] True,
     state = initialState\<lparr>value' := ''hello :a world'', selectionEnd := 8\<rparr>,
     tokenRegExp = [], textareaRef = Some ta, pending = [], effects = []\<rparr>"
  have f: "textareaRef w = Some ta" "value' (state w) = ''hello :a world''"
    "selectionEnd (state w) = 8"
    by (simp_all add: w_def initialState_def)
  from onSelect_mounted [OF f(1)] obtain w' where s: "onSelect ''__x__'' w = Inr w'" by blast
  have r: "value' (state w') = ''hello __x__ world''
     \<and> map_option domSelectionEnd (textareaRef w') = Some 11"
    using C1_splice [OF s] unfolding f by (auto simp: isSpace_def numeral_eq_Suc)
  define tb where "tb = \<lparr>domValue = ''a $5 :ha now $$'', domSelectionStart = 8, domSelectionEnd = 8\<rparr>"
  define u where "u =
    \<lparr>props = defaultProps [] True,
     state = initialState\<lparr>value' := ''a $5 :ha now $$'', selectionEnd := 8\<rparr>,
     tokenRegExp = [], textareaRef = Some tb, pending = [], effects = []\<rparr>"
  have g: "textareaRef u = Some tb" "value' (state u) = ''a $5 :ha now $$''"
    "selectionEnd (state u) = 8"
    by (simp_all add: u_def initialState_def)
  from onSelect_mounted [OF g(1)] obtain u' where t: "onSelect '':happy:'' u = Inr u'" by blast
  have q: "value' (state u') = ''a $5 :happy: now $$''
     \<and> map_option domSelectionEnd (textareaRef u') = Some 12"
    using C1_splice [OF t] unfolding g by (auto simp: isSpace_def numeral_eq_Suc)
  from f s r g t q show ?thesis by blast
qed

text \<open>
  C1 as stated fails twice. It gives 13 for the caret offset of its instance; the token
  starts at 6 and the replacement has 5 characters, so the component sets the caret to 11.
  And not every commit replaces the token by the replacement: \<open>_onSelect\<close> hands the text
  before the token together with the replacement to \<open>replace\<close> as its second argument,
  where \<open>$$\<close> stands for one \<open>$\<close>. In \<open>pay $$ :ha now\<close> with the caret at 10, choosing
  \<open>happy\<close> gives \<open>pay $ :happy: now\<close> and not \<open>pay $$ :happy: now\<close>.
\<close>

theorem C1_counterexample:
  "map_sum id (value' \<circ> state)
     (startRun (defaultProps (colonTrigger (providing (JArray [ItemString ''x''])) (Callable underscored)) True)
        [Change \<lparr>domValue = ''hello :a world'', domSelectionStart = 8, domSelectionEnd = 8\<rparr> (0, 0),
         Settle 0, Choose (ItemString ''x'')])
     = Inr ''hello __x__ world''
   \<and> map_sum id textareaRef
     (startRun (defaultProps (colonTrigger (providing (JArray [ItemString ''x''])) (Callable underscored)) True)
        [Change \<lparr>domValue = ''hello :a world'', domSelectionStart = 8, domSelectionEnd = 8\<rparr> (0, 0),
         Settle 0, Choose (ItemString ''x'')])
     = Inr (Some \<lparr>domValue = ''hello __x__ world'', domSelectionStart = 11, domSelectionEnd = 11\<rparr>)
   \<and> newCaretPosition ''hello :a world'' 8 ''__x__'' = 11
   \<and> newCaretPosition ''hello :a world'' 8 ''__x__'' \<noteq> 13
   \<and> map_sum id (value' \<circ> state)
     (startRun (defaultProps (colonTrigger (providing (JArray [ItemString ''happy'', ItemString ''sad''])) Absent) True)
        [Change \<lparr>domValue = ''pay $$ :ha now'', domSelectionStart = 10, domSelectionEnd = 10\<rparr> (0, 0),
         Settle 0, Choose (ItemString ''happy'')])
     = Inr ''pay $ :happy: now''
   \<and> take (startOfTokenPosition ''pay $$ :ha now'' 10) ''pay $$ :ha now'' @ '':happy:''
       @ drop (10 + offsetToEndOfToken ''pay $$ :ha now'' 10) ''pay $$ :ha now''
     = ''pay $$ :happy: now''"
  by (simp add: world_eval splice_eval)

subsection \<open>C9: the order of the notifications after a commit\<close>

text \<open>
  C9, as the code has it. With the textarea mounted a commit succeeds, and what it does is,
  in this order: the new text is set, one change event is dispatched, \<open>onChange\<close> is called
  once with it if it is configured, the caret is set to the new offset. \<open>_onSelect\<close> of
  src/Textarea.jsx ends there: \<open>onCaretPositionChange\<close> is called by \<open>_selectHandler\<close> when a
  selection event follows. \<open>_onSelect\<close> of the second copy calls \<open>onCaretPositionChange\<close>
  itself, if it is configured, after the caret is set, with the caret position of the
  textarea, which is what \<open>_selectHandler\<close> reports after the first.
\<close>

theorem C9_commit_notification_order:
  assumes "textareaRef w = Some ta"
  shows "\<exists>w1 w2.
     onSelect newToken w = Inr w1 \<and> onSelect_part_001 newToken w = Inr w2
     \<and> value' (state w1) = newValue (value' (state w)) (selectionEnd (state w)) newToken
     \<and> effects w1 = effects w
         @ [StateValue (value' (state w1)), ChangeEventDispatched]
         @ (if onChange (props w) then [OnChangeCalled (value' (state w1))] else [])
         @ [Focused,
            SelectionRangeSet
              (newCaretPosition (value' (state w)) (selectionEnd (state w)) newToken)
              (newCaretPosition (value' (state w)) (selectionEnd (state w)) newToken)]
     \<and> effects w2 = effects w1
         @ (if onCaretPositionChange (props w)
            then [OnCaretPositionChangeCalled
                    (min (newCaretPosition (value' (state w)) (selectionEnd (state w)) newToken)
                         (length (value' (state w1))))]
            else [])
     \<and> effects (selectHandler w1) = effects w2"
proof -
  from assms obtain w1 where s: "onSelect newToken w = Inr w1"
    using onSelect_mounted by blast
  let ?w2 = "selectHandler w1"
  have s2: "onSelect_part_001 newToken w = Inr ?w2"
    by (simp add: onSelect_part_001_eq s)
  have v: "value' (state w1) = newValue (value' (state w)) (selectionEnd (state w)) newToken"
    using s by (rule onSelect_value)
  have c: "getCaretPosition w1 =
      min (newCaretPosition (value' (state w)) (selectionEnd (state w)) newToken)
          (length (value' (state w1)))"
    using onSelect_textarea [OF s assms]
    by (simp add: getCaretPosition_def domSetSelectionRange_def v)
  have e2: "effects ?w2 = effects w1
         @ (if onCaretPositionChange (props w)
            then [OnCaretPositionChangeCalled
                    (min (newCaretPosition (value' (state w)) (selectionEnd (state w)) newToken)
                         (length (value' (state w1))))]
            else [])"
    by (simp add: selectHandler_effects onSelect_props [OF s] c)
  show ?thesis
    using s s2 v e2 onSelect_effects [OF s] by (intro exI [of _ w1] exI [of _ ?w2]) simp
qed

theorem C9_commit_notification_order_witness:
  "\<exists>w w1 w2. textareaRef w \<noteq> None \<and> onChange (props w) \<and> onCaretPositionChange (props w)
     \<and> value' (state w) = ''hello :a world'' \<and> selectionEnd (state w) = 8 \<and> effects w = []
     \<and> onSelect ''__x__'' w = Inr w1 \<and> onSelect_part_001 ''__x__'' w = Inr w2
     \<and> effects w1 = [StateValue ''hello __x__ world'', ChangeEventDispatched,
                      OnChangeCalled ''hello __x__ world'', Focused, SelectionRangeSet 11 11]
     \<and> effects w2 = [StateValue ''hello __x__ world'', ChangeEventDispatched,
                      OnChangeCalled ''hello __x__ world'', Focused, SelectionRangeSet 11 11,
                      OnCaretPositionChangeCalled 11]"
proof -
  define ta where "ta = \<lparr>domValue = ''hello :a world'', domSelectionStart = 8, domSelectionEnd = 8\<rparr>"
  define w where "w =
    \<lparr>props = (defaultProps [] True)\<lparr>onChange := True, onCaretPositionChange := True\<rparr>,
     state = initialState\<lparr>value' := ''hello :a world'', selectionEnd := 8\<rparr>,
     tokenRegExp = [], textareaRef = Some ta, pending = [], effects = []\<rparr>"
  have f: "textareaRef w = Some ta" "onChange (props w)" "onCaretPositionChange (props w)"
    "value' (state w) = ''hello :a world''" "selectionEnd (state w) = 8" "effects w = []"
    by (simp_all add: w_def defaultProps_def initialState_def)
  have n: "newValue ''hello :a world'' 8 ''__x__'' = ''hello __x__ world''"
    "newCaretPosition ''hello :a world'' 8 ''__x__'' = 11"
    by (simp_all add: splice_eval)
  from C9_commit_notification_order [OF f(1), of "''__x__''"]
  obtain w1 w2 where "onSelect ''__x__'' w = Inr w1" "onSelect_part_001 ''__x__'' w = Inr w2"
    "effects w1 = [StateValue ''hello __x__ world'', ChangeEventDispatched,
                      OnChangeCalled ''hello __x__ world'', Focused, SelectionRangeSet 11 11]"
    "effects w2 = [StateValue ''hello __x__ world'', ChangeEventDispatched,
                      OnChangeCalled ''hello __x__ world'', Focused, SelectionRangeSet 11 11,
                      OnCaretPositionChangeCalled 11]"
    by (auto simp: f n)
  with f show ?thesis by blast
qed

text \<open>C9 as stated has the commit call \<open>onCaretPositionChange\<close>. In a run of the component
  of src/Textarea.jsx with both callbacks configured, the only call of
  \<open>onCaretPositionChange\<close> is the one of the edit (offset 8); the commit ends with the caret
  set to 11.\<close>

theorem C9_counterexample:
  "map_sum id effects
     (startRun ((defaultProps (colonTrigger (providing (JArray [ItemString ''x''])) (Callable underscored)) True)
                  \<lparr>onChange := True, onCaretPositionChange := True\<rparr>)
        [Change \<lparr>domValue = ''hello :a world'', domSelectionStart = 8, domSelectionEnd = 8\<rparr> (0, 0),
         Settle 0, Choose (ItemString ''x'')])
     = Inr [OnChangeCalled ''hello :a world'', OnCaretPositionChangeCalled 8,
            StateValue ''hello :a world'',
            StateValue ''hello __x__ world'', ChangeEventDispatched,
            OnChangeCalled ''hello __x__ world'', Focused, SelectionRangeSet 11 11]"
  by (simp add: world_eval splice_eval)

subsection \<open>C4: default formatting\<close>

text \<open>
  C4 on the code. Default formatting hands \<open>t + c + t\<close> to the commit
  (\<open>getTextToReplace_default\<close>), and the scenario of the claim comes out as it says: \<open>hi :ha\<close>
  and the candidate \<open>happy\<close> give \<open>hi :happy:\<close> with the caret at 10, right behind the
  replacement. But the commit passes the replacement through the second argument of
  \<open>replace\<close>, so a candidate with a pattern is not spliced in as \<open>t + c + t\<close>: in \<open>hi :a\<close>
  the candidate \<open>a$$b\<close> has the replacement \<open>:a$$b:\<close>, and the new text is \<open>hi :a$b:\<close>
  where the claim has \<open>hi :a$$b:\<close>.
\<close>

theorem C4_dollar_in_candidate:
  "map_sum id (value' \<circ> state)
     (startRun (defaultProps (colonTrigger (providing (JArray [ItemString ''a$$b''])) Absent) True)
        [Change \<lparr>domValue = ''hi :a'', domSelectionStart = 5, domSelectionEnd = 5\<rparr> (0, 0),
         Settle 0, Choose (ItemString ''a$$b'')])
     = Inr ''hi :a$b:''
   \<and> newValue ''hi :a'' 5 ('':'' @ ''a$$b'' @ '':'') = ''hi :a$b:''
   \<and> take (startOfTokenPosition ''hi :a'' 5) ''hi :a'' @ ('':'' @ ''a$$b'' @ '':'')
       @ drop (5 + offsetToEndOfToken ''hi :a'' 5) ''hi :a''
     = ''hi :a$$b:''
   \<and> map_sum id (value' \<circ> state)
     (startRun (defaultProps (colonTrigger (providing (JArray [ItemString ''happy'', ItemString ''sad''])) Absent) True)
        [Change \<lparr>domValue = ''hi :ha'', domSelectionStart = 6, domSelectionEnd = 6\<rparr> (0, 0),
         Settle 0, Choose (ItemString ''happy'')])
     = Inr ''hi :happy:''
   \<and> map_sum id textareaRef
     (startRun (defaultProps (colonTrigger (providing (JArray [ItemString ''happy'', ItemString ''sad''])) Absent) True)
        [Change \<lparr>domValue = ''hi :ha'', domSelectionStart = 6, domSelectionEnd = 6\<rparr> (0, 0),
         Settle 0, Choose (ItemString ''happy'')])
     = Inr (Some \<lparr>domValue = ''hi :happy:'', domSelectionStart = 10, domSelectionEnd = 10\<rparr>)"
  by (simp add: world_eval splice_eval)

subsection \<open>C3: fetches that settle out of order\<close>

text \<open>
  C3, as the code has it. A fetch is applied when it settles, whatever has been issued or
  typed since: a fulfilled fetch (with a component that is a function) stores its
  candidates, clears the loading flag and leaves the active trigger, the partial token and
  the text as they are. Of two overlapping fetches the one that settles last decides the
  candidates.
\<close>

theorem C3_resolution_applied_when_it_settles:
  assumes "i < length (pending w)" and "providedData (pending w ! i) = Fulfilled d"
    and "fetchComponent (pending w ! i) = Callable c"
  shows "\<exists>w'. settle i w = Inr w'
     \<and> data (state w') = d \<and> \<not> dataLoading (state w')
     \<and> textareaState.component (state w') = Some c
     \<and> currentTrigger (state w') = currentTrigger (state w)
     \<and> actualToken (state w') = actualToken (state w)
     \<and> value' (state w') = value' (state w)
     \<and> pending w' = take i (pending w) @ drop (Suc i) (pending w)"
  using settle_fulfilled [OF assms] by simp

text \<open>Two fetches in flight, for \<open>a\<close> and then for \<open>ab\<close>, that settle in the order of their
  issue: each is applied, and the candidates of the later one are the final ones.\<close>

theorem C3_resolution_applied_when_it_settles_witness:
  "\<exists>w w1 w2.
     actualToken (state w) = ''ab''
     \<and> pending w = [\<lparr>providedData = Fulfilled (JArray [ItemString ''a'']),
                       fetchComponent = Callable ''Item''\<rparr>,
                      \<lparr>providedData = Fulfilled (JArray [ItemString ''ab'']),
                       fetchComponent = Callable ''Item''\<rparr>]
     \<and> settle 0 w = Inr w1 \<and> data (state w1) = JArray [ItemString ''a'']
     \<and> settle 0 w1 = Inr w2 \<and> data (state w2) = JArray [ItemString ''ab'']
     \<and> \<not> dataLoading (state w2) \<and> pending w2 = []"
proof -
  define fa where "fa = \<lparr>providedData = Fulfilled (JArray [ItemString ''a'']),
                       fetchComponent = Callable ''Item''\<rparr>"
  define fb where "fb = \<lparr>providedData = Fulfilled (JArray [ItemString ''ab'']),
                       fetchComponent = Callable ''Item''\<rparr>"
  define w where "w =
    \<lparr>props = defaultProps [] True,
     state = initialState\<lparr>currentTrigger := Some '':'', actualToken := ''ab'',
               value' := '':ab'', dataLoading := True, selectionEnd := 3\<rparr>,
     tokenRegExp = [], textareaRef = None, pending = [fa, fb], effects = []\<rparr>"
  have f: "actualToken (state w) = ''ab''" "pending w = [fa, fb]"
    by (simp_all add: w_def initialState_def)
  have a: "0 < length (pending w)" "providedData (pending w ! 0) = Fulfilled (JArray [ItemString ''a''])"
    "fetchComponent (pending w ! 0) = Callable ''Item''"
    by (simp_all add: f fa_def)
  from C3_resolution_applied_when_it_settles [OF a]
  obtain w1 where w1: "settle 0 w = Inr w1" "data (state w1) = JArray [ItemString ''a'']"
    "pending w1 = [fb]"
    by (auto simp: f)
  have b: "0 < length (pending w1)" "providedData (pending w1 ! 0) = Fulfilled (JArray [ItemString ''ab''])"
    "fetchComponent (pending w1 ! 0) = Callable ''Item''"
    by (simp_all add: w1 fb_def)
  from C3_resolution_applied_when_it_settles [OF b]
  obtain w2 where w2: "settle 0 w1 = Inr w2" "data (state w2) = JArray [ItemString ''ab'']"
    "\<not> dataLoading (state w2)" "pending w2 = []"
    by (auto simp: w1)
  from f w1 w2 show ?thesis unfolding fa_def fb_def by blast
qed

text \<open>C3 as stated has the stale resolution discarded. Typing \<open>:a\<close> and then \<open>:ab\<close> issues
  two fetches; when the second settles first and the first after it, the final candidates
  are those fetched for \<open>a\<close>, while the partial token is \<open>ab\<close>.\<close>

theorem C3_counterexample:
  "map_sum id (actualToken \<circ> state)
     (startRun (defaultProps (colonTrigger echoing Absent) True)
        [Change \<lparr>domValue = '':a'', domSelectionStart = 2, domSelectionEnd = 2\<rparr> (0, 0),
         Change \<lparr>domValue = '':ab'', domSelectionStart = 3, domSelectionEnd = 3\<rparr> (0, 0),
         Settle 1, Settle 0])
     = Inr ''ab''
   \<and> map_sum id (data \<circ> state)
     (startRun (defaultProps (colonTrigger echoing Absent) True)
        [Change \<lparr>domValue = '':a'', domSelectionStart = 2, domSelectionEnd = 2\<rparr> (0, 0),
         Change \<lparr>domValue = '':ab'', domSelectionStart = 3, domSelectionEnd = 3\<rparr> (0, 0),
         Settle 1, Settle 0])
     = Inr (JArray [ItemString ''a''])
   \<and> map_sum id render
     (startRun (defaultProps (colonTrigger echoing Absent) True)
        [Change \<lparr>domValue = '':a'', domSelectionStart = 2, domSelectionEnd = 2\<rparr> (0, 0),
         Change \<lparr>domValue = '':ab'', domSelectionStart = 3, domSelectionEnd = 3\<rparr> (0, 0),
         Settle 1, Settle 0])
     = Inr \<lparr>overlayShown = True, listValues = Some (JArray [ItemString ''a'']), loaderShown = False\<rparr>"
  by (simp add: world_eval)

subsection \<open>C6: the escape key\<close>

text \<open>
  C6, as the code has it. The escape key runs \<open>_closeAutocomplete\<close>: afterwards there are no
  suggestions and no list is rendered. The loading flag, the active trigger, the partial
  token and the fetches in flight are as before, so the loader and the overlay are shown
  exactly when a fetch was loading; and a fulfilled fetch that settles afterwards does
  what it would have done without the escape key: it stores its candidates and clears the
  loading flag.
\<close>

theorem C6_escape_clears_the_list:
  "\<exists>w'. step Escape w = Inr w'
     \<and> getSuggestions (state w') = None
     \<and> listValues (render w') = None
     \<and> loaderShown (render w') = dataLoading (state w)
     \<and> overlayShown (render w') = dataLoading (state w)
     \<and> dataLoading (state w') = dataLoading (state w)
     \<and> currentTrigger (state w') = currentTrigger (state w)
     \<and> actualToken (state w') = actualToken (state w)
     \<and> pending w' = pending w
     \<and> (\<forall>i d c. i < length (pending w) \<and> providedData (pending w ! i) = Fulfilled d
            \<and> fetchComponent (pending w ! i) = Callable c
          \<longrightarrow> settle i w' = settle i w
              \<and> (\<exists>w''. settle i w' = Inr w'' \<and> data (state w'') = d
                       \<and> \<not> dataLoading (state w'')))"
proof -
  have "settle i (closeAutocomplete w) = settle i w
      \<and> (\<exists>w''. settle i (closeAutocomplete w) = Inr w'' \<and> data (state w'') = d
               \<and> \<not> dataLoading (state w''))"
    if "i < length (pending w)" "providedData (pending w ! i) = Fulfilled d"
      "fetchComponent (pending w ! i) = Callable c" for i d c
    using settle_after_close [OF that] settle_fulfilled [OF that] by simp
  then have s: "\<forall>i d c. i < length (pending w) \<and> providedData (pending w ! i) = Fulfilled d
            \<and> fetchComponent (pending w ! i) = Callable c
          \<longrightarrow> settle i (closeAutocomplete w) = settle i w
              \<and> (\<exists>w''. settle i (closeAutocomplete w) = Inr w'' \<and> data (state w'') = d
                       \<and> \<not> dataLoading (state w''))"
    by blast
  have r: "listValues (render (closeAutocomplete w)) = None"
    "loaderShown (render (closeAutocomplete w)) = dataLoading (state w)"
    "overlayShown (render (closeAutocomplete w)) = dataLoading (state w)"
    by (simp_all add: render_def Let_def)
  have "step Escape w = Inr (closeAutocomplete w)
     \<and> getSuggestions (state (closeAutocomplete w)) = None
     \<and> listValues (render (closeAutocomplete w)) = None
     \<and> loaderShown (render (closeAutocomplete w)) = dataLoading (state w)
     \<and> overlayShown (render (closeAutocomplete w)) = dataLoading (state w)
     \<and> dataLoading (state (closeAutocomplete w)) = dataLoading (state w)
     \<and> currentTrigger (state (closeAutocomplete w)) = currentTrigger (state w)
     \<and> actualToken (state (closeAutocomplete w)) = actualToken (state w)
     \<and> pending (closeAutocomplete w) = pending w"
    by (simp add: r)
  with s show ?thesis by blast
qed

theorem C6_escape_clears_the_list_witness:
  "\<exists>w w' w''.
     dataLoading (state w) \<and> listValues (render w) = Some (JArray [ItemString ''a''])
     \<and> pending w = [\<lparr>providedData = Fulfilled (JArray [ItemString ''ab'']),
                       fetchComponent = Callable ''Item''\<rparr>]
     \<and> step Escape w = Inr w'
     \<and> listValues (render w') = None \<and> loaderShown (render w')
     \<and> settle 0 w' = Inr w''
     \<and> data (state w'') = JArray [ItemString ''ab'']"
proof -
  define fb where "fb = \<lparr>providedData = Fulfilled (JArray [ItemString ''ab'']),
                       fetchComponent = Callable ''Item''\<rparr>"
  define w where "w =
    \<lparr>props = defaultProps [] True,
     state = initialState\<lparr>currentTrigger := Some '':'', actualToken := ''ab'',
               data := JArray [ItemString ''a''], value' := '':ab'', dataLoading := True,
               selectionEnd := 3, component := Some ''Item''\<rparr>,
     tokenRegExp = [], textareaRef = None, pending = [fb], effects = []\<rparr>"
  have f: "dataLoading (state w)" "listValues (render w) = Some (JArray [ItemString ''a''])"
    "pending w = [fb]"
    by (simp_all add: w_def initialState_def render_def getSuggestions_def truthy_def
        truthyTrigger_def lengthOf_def Let_def)
  have a: "0 < length (pending w) \<and> providedData (pending w ! 0) = Fulfilled (JArray [ItemString ''ab''])
    \<and> fetchComponent (pending w ! 0) = Callable ''Item''"
    by (simp add: f fb_def)
  from C6_escape_clears_the_list [of w] obtain w' where w': "step Escape w = Inr w'"
    "listValues (render w') = None" "loaderShown (render w') = dataLoading (state w)"
    and s: "\<forall>i d c. i < length (pending w) \<and> providedData (pending w ! i) = Fulfilled d
            \<and> fetchComponent (pending w ! i) = Callable c
          \<longrightarrow> settle i w' = settle i w
              \<and> (\<exists>w''. settle i w' = Inr w'' \<and> data (state w'') = d
                       \<and> \<not> dataLoading (state w''))"
    by blast
  from s a obtain w'' where "settle 0 w' = Inr w''" "data (state w'') = JArray [ItemString ''ab'']"
    by blast
  with f w' show ?thesis unfolding fb_def by blast
qed

text \<open>C6 as stated has no loader after the escape key and the late fetch without effect.
  After \<open>:a\<close> is typed and the escape key is pressed while the fetch is in flight, the
  overlay with the loader is still rendered; when the fetch settles, the list of its
  candidates is rendered.\<close>

theorem C6_counterexample:
  "map_sum id render
     (startRun (defaultProps (colonTrigger (resolving (JArray [ItemString ''happy'', ItemString ''sad''])) Absent) True)
        [Change \<lparr>domValue = '':a'', domSelectionStart = 2, domSelectionEnd = 2\<rparr> (0, 0), Escape])
     = Inr \<lparr>overlayShown = True, listValues = None, loaderShown = True\<rparr>
   \<and> map_sum id render
     (startRun (defaultProps (colonTrigger (resolving (JArray [ItemString ''happy'', ItemString ''sad''])) Absent) True)
        [Change \<lparr>domValue = '':a'', domSelectionStart = 2, domSelectionEnd = 2\<rparr> (0, 0), Escape,
         Settle 0])
     = Inr \<lparr>overlayShown = True,
            listValues = Some (JArray [ItemString ''happy'', ItemString ''sad'']),
            loaderShown = False\<rparr>"
  by (simp add: world_eval)

subsection \<open>C7: an empty result\<close>

text \<open>
  C7. When a fetch (with a component that is a function) is fulfilled with the empty
  array, nothing is thrown, the loading flag is false, there are no suggestions, and
  neither the overlay nor the list nor the loader is rendered.
\<close>

theorem C7_empty_result_closes:
  assumes "i < length (pending w)" and "providedData (pending w ! i) = Fulfilled (JArray [])"
    and "fetchComponent (pending w ! i) = Callable c"
  shows "\<exists>w'. settle i w = Inr w'
     \<and> \<not> dataLoading (state w') \<and> getSuggestions (state w') = None
     \<and> render w' = \<lparr>overlayShown = False, listValues = None, loaderShown = False\<rparr>"
  using settle_fulfilled [OF assms]
  by (simp add: render_def getSuggestions_def truthy_def lengthOf_def Let_def)

theorem C7_empty_result_closes_witness:
  "\<exists>w0 w1 w2.
     constructor (defaultProps
         [('':'', \<lparr>dataProvider = Callable (\<lambda>tok. Direct (JArray [])),
                  component = Callable ''Item'', output' = Absent\<rparr>)] True) = Inr w0
     \<and> run [Change \<lparr>domValue = '':a'', domSelectionStart = 2, domSelectionEnd = 2\<rparr> (0, 0)] w0
         = Inr w1
     \<and> render w1 = \<lparr>overlayShown = True, listValues = None, loaderShown = True\<rparr>
     \<and> run [Settle 0] w1 = Inr w2
     \<and> \<not> dataLoading (state w2)
     \<and> render w2 = \<lparr>overlayShown = False, listValues = None, loaderShown = False\<rparr>"
proof -
  define st where "st = \<lparr>dataProvider = Callable (\<lambda>tok. Direct (JArray [])),
                  component = Callable ''Item'', output' = Absent\<rparr>"
  have "\<exists>w0 w1. constructor (defaultProps [('':'', st)] True) = Inr w0
     \<and> run [Change \<lparr>domValue = '':a'', domSelectionStart = 2, domSelectionEnd = 2\<rparr> (0, 0)] w0
         = Inr w1
     \<and> render w1 = \<lparr>overlayShown = True, listValues = None, loaderShown = True\<rparr>
     \<and> pending w1 = [\<lparr>providedData = Fulfilled (JArray []), fetchComponent = Callable ''Item''\<rparr>]"
    by (simp add: world_eval st_def)
  then obtain w0 w1 where r: "constructor (defaultProps [('':'', st)] True) = Inr w0"
     "run [Change \<lparr>domValue = '':a'', domSelectionStart = 2, domSelectionEnd = 2\<rparr> (0, 0)] w0
         = Inr w1"
     "render w1 = \<lparr>overlayShown = True, listValues = None, loaderShown = True\<rparr>"
     and p: "pending w1 = [\<lparr>providedData = Fulfilled (JArray []), fetchComponent = Callable ''Item''\<rparr>]"
    by blast
  have a: "0 < length (pending w1)" "providedData (pending w1 ! 0) = Fulfilled (JArray [])"
    "fetchComponent (pending w1 ! 0) = Callable ''Item''"
    by (simp_all add: p)
  from C7_empty_result_closes [OF a]
  obtain w2 where "settle 0 w1 = Inr w2" "\<not> dataLoading (state w2)"
    "render w2 = \<lparr>overlayShown = False, listValues = None, loaderShown = False\<rparr>"
    by blast
  with r show ?thesis unfolding st_def by auto
qed

subsection \<open>C8: a resolved value that is not an array\<close>

text \<open>
  C8 on the code. The callback tests \<open>typeof providedData\<close>, the promise, which is always
  \<open>object\<close>, and not the resolved \<open>data\<close>: the error "Trigger provider has to provide an
  array!" is never thrown. A provider that resolves to the number 42 leaves 42 in the
  state with nothing rendered; one that returns the string \<open>abc\<close> has it handed to the list
  as its values.
\<close>

theorem C8_resolved_value_not_checked:
  "(\<forall>f d w. thenCallback f d w \<noteq> Inl (Error ''RTA: Trigger provider has to provide an array!''))
   \<and> map_sum id (data \<circ> state)
       (startRun (defaultProps (colonTrigger (resolving (JNumber 42)) Absent) True)
          [Change \<lparr>domValue = '':a'', domSelectionStart = 2, domSelectionEnd = 2\<rparr> (0, 0), Settle 0])
       = Inr (JNumber 42)
   \<and> map_sum id render
       (startRun (defaultProps (colonTrigger (resolving (JNumber 42)) Absent) True)
          [Change \<lparr>domValue = '':a'', domSelectionStart = 2, domSelectionEnd = 2\<rparr> (0, 0), Settle 0])
       = Inr \<lparr>overlayShown = False, listValues = None, loaderShown = False\<rparr>
   \<and> map_sum id render
       (startRun (defaultProps (colonTrigger (providing (JString ''abc'')) Absent) True)
          [Change \<lparr>domValue = '':a'', domSelectionStart = 2, domSelectionEnd = 2\<rparr> (0, 0), Settle 0])
       = Inr \<lparr>overlayShown = True, listValues = Some (JString ''abc''), loaderShown = False\<rparr>"
proof -
  have "thenCallback f d w \<noteq> Inl (Error ''RTA: Trigger provider has to provide an array!'')"
    for f d w
    by (simp add: thenCallback_def typeofPromise_def split: fnProp.splits)
  then show ?thesis
    by (simp add: world_eval)
qed

subsection \<open>C5: the threshold\<close>

text \<open>
  C5, as the code has it. The default of \<open>minChar\<close> is 1. With a match \<open>tok\<close> of the pattern
  before the caret, the handler takes the path without a token exactly when the partial
  token (the match without its first character) is shorter than \<open>minChar\<close>, that is when
  the length of the match, trigger character included, does not exceed \<open>minChar\<close>. On that
  path no fetch is issued, the loading flag, the trigger and the partial token stay, and
  there are no suggestions. When the partial token has at least \<open>minChar\<close> characters and
  the first character is a trigger key with a provider function, a fetch is issued and
  the loading flag is set.
\<close>

theorem C5_threshold_counts_the_trigger:
  assumes tok: "lastToken (tokenRegExp w) (domValue ta) (domSelectionEnd ta) = Some tok"
  shows "minChar (defaultProps trg lc) = 1
     \<and> (tokenizer (tokenRegExp w) (map fst (trigger (props w))) (minChar (props w))
           (domValue ta) (domSelectionEnd ta) = NoToken
         \<longleftrightarrow> int (length (drop 1 tok)) < minChar (props w))
     \<and> (int (length (drop 1 tok)) < minChar (props w)
         \<longrightarrow> (\<exists>w'. changeHandler ta coords w = Inr w'
                \<and> pending w' = pending w
                \<and> dataLoading (state w') = dataLoading (state w)
                \<and> currentTrigger (state w') = currentTrigger (state w)
                \<and> actualToken (state w') = actualToken (state w)
                \<and> getSuggestions (state w') = None))
     \<and> (minChar (props w) \<le> int (length (drop 1 tok))
          \<and> map_of (trigger (props w)) (take 1 tok) = Some settings
          \<and> dataProvider settings = Callable f
         \<longrightarrow> (\<exists>w'. changeHandler ta coords w = Inr w'
                \<and> pending w' = pending w
                     @ [\<lparr>providedData = toPromise (f (drop 1 tok)),
                         fetchComponent = settingType.component settings\<rparr>]
                \<and> dataLoading (state w')
                \<and> currentTrigger (state w') = Some (take 1 tok)
                \<and> actualToken (state w') = drop 1 tok))"
proof -
  let ?tk = "tokenizer (tokenRegExp w) (map fst (trigger (props w))) (minChar (props w))
           (domValue ta) (domSelectionEnd ta)"
  from tok have ne: "tok \<noteq> []"
    unfolding lastToken_def by (rule exec_nonempty)
  then have len: "int (length (drop 1 tok)) = int (length tok) - 1"
    by (cases tok) simp_all
  have t1: "take 1 tok \<noteq> []" using ne by (cases tok) simp_all
  have d: "minChar (defaultProps trg lc) = 1" by (simp add: defaultProps_def)
  have iff: "?tk = NoToken \<longleftrightarrow> int (length (drop 1 tok)) < minChar (props w)"
    using tok ne len t1 by (auto simp: tokenizer_def split: option.splits)
  have low: "\<exists>w'. changeHandler ta coords w = Inr w'
                \<and> pending w' = pending w
                \<and> dataLoading (state w') = dataLoading (state w)
                \<and> currentTrigger (state w') = currentTrigger (state w)
                \<and> actualToken (state w') = actualToken (state w)
                \<and> getSuggestions (state w') = None"
    if "int (length (drop 1 tok)) < minChar (props w)"
  proof -
    from that iff have "?tk = NoToken" by simp
    then show ?thesis
      by (simp add: changeHandler_def Let_def selectHandler_def setStateValue_def)
  qed
  have high: "\<exists>w'. changeHandler ta coords w = Inr w'
                \<and> pending w' = pending w
                     @ [\<lparr>providedData = toPromise (f (drop 1 tok)),
                         fetchComponent = settingType.component settings\<rparr>]
                \<and> dataLoading (state w')
                \<and> currentTrigger (state w') = Some (take 1 tok)
                \<and> actualToken (state w') = drop 1 tok"
    if h: "minChar (props w) \<le> int (length (drop 1 tok))"
      "map_of (trigger (props w)) (take 1 tok) = Some settings"
      "dataProvider settings = Callable f"
  proof -
    from h(2) have "find (\<lambda>a. a = take 1 tok) (map fst (trigger (props w))) = Some (take 1 tok)"
      by (rule map_of_find_key)
    with tok ne len t1 h(1) have "?tk = Token (take 1 tok) (drop 1 tok)"
      by (simp add: tokenizer_def)
    then show ?thesis
      using h(2,3) t1
      by (simp add: changeHandler_def Let_def selectHandler_def setStateValue_def
          getValuesFromProvider_def getCurrentTriggerSettings_def truthyTrigger_def)
  qed
  from d iff low high show ?thesis by blast
qed

text \<open>With the default \<open>minChar\<close>: the text \<open>:\<close> issues no fetch, the text \<open>:a\<close> does.\<close>

theorem C5_threshold_counts_the_trigger_witness:
  "\<exists>w w1 w2.
     minChar (props w) = 1 \<and> pending w = [] \<and> \<not> dataLoading (state w)
     \<and> changeHandler \<lparr>domValue = '':'', domSelectionStart = 1, domSelectionEnd = 1\<rparr> (0, 0) w
         = Inr w1
     \<and> pending w1 = [] \<and> \<not> dataLoading (state w1)
     \<and> changeHandler \<lparr>domValue = '':a'', domSelectionStart = 2, domSelectionEnd = 2\<rparr> (0, 0) w
         = Inr w2
     \<and> length (pending w2) = 1 \<and> dataLoading (state w2) \<and> actualToken (state w2) = ''a''"
proof -
  define st where "st = \<lparr>dataProvider = Callable (\<lambda>tok. Direct (JArray [ItemString ''happy''])),
                  component = Callable ''Item'', output' = Absent\<rparr>"
  define w where "w =
    \<lparr>props = defaultProps [('':'', st)] True, state = initialState,
     tokenRegExp = '':'', textareaRef = None, pending = [], effects = []\<rparr>"
  define ta1 where "ta1 = \<lparr>domValue = '':'', domSelectionStart = 1, domSelectionEnd = 1\<rparr>"
  define ta2 where "ta2 = \<lparr>domValue = '':a'', domSelectionStart = 2, domSelectionEnd = 2\<rparr>"
  have f: "minChar (props w) = 1" "pending w = []" "\<not> dataLoading (state w)"
    "trigger (props w) = [('':'', st)]"
    by (simp_all add: w_def defaultProps_def initialState_def)
  have l1: "lastToken (tokenRegExp w) (domValue ta1) (domSelectionEnd ta1) = Some '':''"
    and l2: "lastToken (tokenRegExp w) (domValue ta2) (domSelectionEnd ta2) = Some '':a''"
    by (simp_all add: w_def ta1_def ta2_def lastToken_def isWord_def)
  from C5_threshold_counts_the_trigger [OF l1, of _ _ "(0, 0)"]
  obtain w1 where w1: "changeHandler ta1 (0, 0) w = Inr w1" "pending w1 = []"
    "\<not> dataLoading (state w1)"
    by (auto simp: f)
  have "\<exists>w2. changeHandler ta2 (0, 0) w = Inr w2 \<and> length (pending w2) = 1
      \<and> dataLoading (state w2) \<and> actualToken (state w2) = ''a''"
    using C5_threshold_counts_the_trigger [OF l2, of _ _ "(0, 0)" st
        "\<lambda>tok. Direct (JArray [ItemString ''happy''])", THEN conjunct2, THEN conjunct2, THEN conjunct2]
    by (auto simp: f st_def)
  then obtain w2 where "changeHandler ta2 (0, 0) w = Inr w2" "length (pending w2) = 1"
     "dataLoading (state w2)" "actualToken (state w2) = ''a''"
    by blast
  with f w1 show ?thesis unfolding ta1_def ta2_def by blast
qed

text \<open>C5 as stated suppresses the session until the partial token is longer than
  \<open>minChar\<close>. With the default 1 and the text \<open>:a\<close>, whose partial token \<open>a\<close> has one
  character, the session opens: a fetch is issued and the overlay with the loader is
  rendered.\<close>

theorem C5_counterexample:
  "minChar (defaultProps (colonTrigger (providing (JArray [ItemString ''happy'', ItemString ''sad''])) Absent) True) = 1
   \<and> map_sum id (actualToken \<circ> state)
     (startRun (defaultProps (colonTrigger (providing (JArray [ItemString ''happy'', ItemString ''sad''])) Absent) True)
        [Change \<lparr>domValue = '':a'', domSelectionStart = 2, domSelectionEnd = 2\<rparr> (0, 0)])
     = Inr ''a''
   \<and> \<not> 1 < int (length ''a'')
   \<and> map_sum id (length \<circ> pending)
     (startRun (defaultProps (colonTrigger (providing (JArray [ItemString ''happy'', ItemString ''sad''])) Absent) True)
        [Change \<lparr>domValue = '':a'', domSelectionStart = 2, domSelectionEnd = 2\<rparr> (0, 0)])
     = Inr 1
   \<and> map_sum id render
     (startRun (defaultProps (colonTrigger (providing (JArray [ItemString ''happy'', ItemString ''sad''])) Absent) True)
        [Change \<lparr>domValue = '':a'', domSelectionStart = 2, domSelectionEnd = 2\<rparr> (0, 0)])
     = Inr \<lparr>overlayShown = True, listValues = None, loaderShown = True\<rparr>"
  by (simp add: world_eval)

end
